theory Spec2Isabelle
  imports Main
begin

section \<open>Values of the scripting language\<close>

text \<open>
  Strings are lists of characters; one \<^typ>\<open>char\<close> stands for one code unit of the
  script's strings.  Values that travel through \<open>JSON.parse\<close> and \<open>response.json()\<close>
  are trees of type \<open>jsval\<close>.  A number is given by what \<open>Number.prototype.toString\<close>
  prints for it (\<open>101\<close>, \<open>1.5\<close>, \<open>1e+21\<close>, \<open>NaN\<close>): the script only converts
  numbers to strings and to booleans, and both conversions are functions of that
  printout (\<open>0\<close> and \<open>-0\<close> print alike and are both false).
\<close>

datatype jsval =
    JUndefined
  | JNull
  | JBool bool
  | JNum string
  | JStr string
  | JArr "jsval list"
  | JObj "(string \<times> jsval) list"

datatype exn = SyntaxError | TypeError | AbortError

text \<open>\<open>ToBoolean\<close>, as used by \<open>||\<close>, \<open>Boolean(...)\<close> and \<open>if (!raw)\<close>.\<close>

fun truthy :: "jsval \<Rightarrow> bool" where
  "truthy JUndefined = False"
| "truthy JNull = False"
| "truthy (JBool b) = b"
| "truthy (JNum n) = (n \<noteq> ''0'' \<and> n \<noteq> ''NaN'')"
| "truthy (JStr s) = (s \<noteq> [])"
| "truthy (JArr xs) = True"
| "truthy (JObj kvs) = True"

text \<open>The operator \<open>a || b\<close> on values.\<close>

definition or_else :: "jsval \<Rightarrow> jsval \<Rightarrow> jsval" where
  "or_else a b = (if truthy a then a else b)"

fun join :: "string \<Rightarrow> string list \<Rightarrow> string" where
  "join sep [] = []"
| "join sep [x] = x"
| "join sep (x # y # ys) = x @ sep @ join sep (y # ys)"

text \<open>\<open>ToString\<close>, as applied by string concatenation and by the setter of \<open>value\<close>.\<close>

fun toString :: "jsval \<Rightarrow> string" where
  "toString JUndefined = ''undefined''"
| "toString JNull = ''null''"
| "toString (JBool b) = (if b then ''true'' else ''false'')"
| "toString (JNum n) = n"
| "toString (JStr s) = s"
| "toString (JArr xs) =
     join '','' (map (\<lambda>x. if x = JUndefined \<or> x = JNull then [] else toString x) xs)"
| "toString (JObj kvs) = ''[object Object]''"

text \<open>
  Property read \<open>data.k\<close> for the keys the script reads (\<open>name\<close>, \<open>email\<close>, \<open>phone\<close>,
  \<open>password\<close>, \<open>companyToggle\<close>, \<open>company\<close>, \<open>id\<close>): none of them is a built-in
  property of a string, a number, a boolean or an array, so only an object can hold
  one; reading from \<open>null\<close> or \<open>undefined\<close> throws a \<open>TypeError\<close>.
\<close>

fun get_prop :: "jsval \<Rightarrow> string \<Rightarrow> exn + jsval" where
  "get_prop JUndefined k = Inl TypeError"
| "get_prop JNull k = Inl TypeError"
| "get_prop (JObj kvs) k = Inr (case map_of kvs k of None \<Rightarrow> JUndefined | Some v \<Rightarrow> v)"
| "get_prop v k = Inr JUndefined"

definition String_bool :: "bool \<Rightarrow> string" where
  "String_bool b = (if b then ''true'' else ''false'')"

section \<open>The page: form controls, error slots, storage\<close>

datatype field = FName | FEmail | FPassword | FPhone | FCompany

text \<open>
  One validated input element.  \<open>val\<close> is its \<open>value\<close>, \<open>required\<close> the presence of the
  attribute, \<open>customValidity\<close> the message last given to \<open>setCustomValidity\<close>,
  \<open>aria_invalid\<close> the attribute \<open>aria-invalid\<close>, and \<open>user_edited\<close> tells whether the
  value was last changed by the user rather than by the script (the user agent's
  \<open>tooShort\<close> looks at it).
\<close>

record elem =
  val :: string
  required :: bool
  customValidity :: string
  aria_invalid :: "string option"
  user_edited :: bool

text \<open>The callbacks the script hands to \<open>setTimeout\<close>.\<close>

datatype task = RunValidate field | RunSaveDraft

text \<open>
  What the script does to the outside, in the order it happens: a validator is entered
  (\<open>Call\<close>), \<open>console.log\<close> and \<open>console.error\<close> with their arguments, \<open>alert\<close>,
  the call \<open>focus()\<close> on an input, \<open>fetch\<close> with the address and the request body,
  \<open>e.preventDefault()\<close>.
\<close>

datatype effect =
    Call field
  | Console_log "jsval list"
  | Console_error string exn
  | Alert string
  | Focus field
  | Fetch string string
  | PreventDefault

text \<open>
  What the script takes from its surroundings and \<open>src/app.js\<close> does not define: the
  constraints the markup puts on each input (\<open>type\<close>, \<open>minlength\<close>, \<open>pattern\<close>) as the
  user agent evaluates them, the user agent's own validation message, the document
  order of the validated inputs inside the form, the defaults \<open>form.reset()\<close> restores,
  the JSON codec and the clock.
\<close>

record env =
  typeMismatch :: "field \<Rightarrow> string \<Rightarrow> bool"
  tooShort :: "field \<Rightarrow> string \<Rightarrow> bool \<Rightarrow> bool"
  otherInvalid :: "field \<Rightarrow> string \<Rightarrow> bool"
  uaMessage :: "field \<Rightarrow> string \<Rightarrow> bool \<Rightarrow> bool \<Rightarrow> string"
  form_order :: "field list"
  defaultValue :: "field \<Rightarrow> string"
  defaultHp :: string
  defaultChecked :: bool
  JSON_stringify :: "jsval \<Rightarrow> string"
  JSON_parse :: "string \<Rightarrow> exn + jsval"
  toISOString :: "nat \<Rightarrow> string"

text \<open>
  The mutable state: the five validated inputs (\<open>field_els\<close>, the script's \<open>fields\<close>), the checkbox
  \<open>fields.companyToggle.checked\<close>, the honeypot \<open>fields.hp.value\<close>, the text of the
  error slots, \<open>companySection.hidden\<close>, the summary box (its class
  \<open>visually-hidden\<close> and its \<open>innerHTML\<close>), \<open>localStorage\<close>, the pending timers
  (identifier, due time, callback) with the clock, the private \<open>timeout\<close> variable of
  each of the two debounced \<open>saveDraft\<close> functions registered on the form, and the
  trace of effects on the outside (calls of validators, console, alerts, focus,
  requests).
\<close>

record page =
  field_els :: "field \<Rightarrow> elem"
  companyToggle :: bool
  hp :: string
  errorEls :: "field \<Rightarrow> string"
  companySection_hidden :: bool
  summary_hidden :: bool
  summary_innerHTML :: string
  localStorage :: "string \<rightharpoonup> string"
  timers :: "(nat \<times> nat \<times> task) list"
  next_timer :: nat
  clock :: nat
  input_timeout :: "nat option"
  change_timeout :: "nat option"
  effects :: "effect list"

definition emit :: "effect \<Rightarrow> page \<Rightarrow> page" where
  "emit e s = s\<lparr>effects := effects s @ [e]\<rparr>"

section \<open>Constraint validation of the user agent\<close>

definition valueMissing :: "elem \<Rightarrow> bool" where
  "valueMissing el = (required el \<and> val el = [])"

definition customError :: "elem \<Rightarrow> bool" where
  "customError el = (customValidity el \<noteq> [])"

definition setCustomValidity :: "string \<Rightarrow> elem \<Rightarrow> elem" where
  "setCustomValidity m el = el\<lparr>customValidity := m\<rparr>"

definition checkValidity :: "env \<Rightarrow> field \<Rightarrow> elem \<Rightarrow> bool" where
  "checkValidity U f el =
     (\<not> (valueMissing el \<or> typeMismatch U f (val el)
          \<or> tooShort U f (val el) (user_edited el) \<or> otherInvalid U f (val el)
          \<or> customError el))"

definition validationMessage :: "env \<Rightarrow> field \<Rightarrow> elem \<Rightarrow> string" where
  "validationMessage U f el =
     (if checkValidity U f el then []
      else if customError el then customValidity el
      else uaMessage U f (val el) (required el) (user_edited el))"

section \<open>String helpers of the script\<close>

definition is_digit :: "char \<Rightarrow> bool" where
  "is_digit c = (c \<in> set ''0123456789'')"

definition is_upper :: "char \<Rightarrow> bool" where
  "is_upper c = (c \<in> set ''ABCDEFGHIJKLMNOPQRSTUVWXYZ'')"

definition is_lower :: "char \<Rightarrow> bool" where
  "is_lower c = (c \<in> set ''abcdefghijklmnopqrstuvwxyz'')"

text \<open>
  White space and line terminators as \<open>trim\<close> strips them, among the code units a
  \<^typ>\<open>char\<close> can stand for: tab, line feed, vertical tab, form feed, carriage return,
  space and the no-break space U+00A0.
\<close>

definition is_space :: "char \<Rightarrow> bool" where
  "is_space c =
     (c \<in> set [CHR '' '', CHR 0x09, CHR 0x0A, CHR 0x0B, CHR 0x0C, CHR 0x0D, CHR 0xA0])"

definition is_line_terminator :: "char \<Rightarrow> bool" where
  "is_line_terminator c = (c \<in> set [CHR 0x0A, CHR 0x0D])"

text \<open>\<open>String.prototype.trim\<close>.\<close>

definition trim :: "string \<Rightarrow> string" where
  "trim s = rev (dropWhile is_space (rev (dropWhile is_space s)))"

text \<open>
  One lookahead \<open>(?=.*[C])\<close> at the start of \<open>xs\<close>: some character of the class occurs
  before the next line terminator (\<open>.\<close> does not match one).
\<close>

definition lookahead :: "(char \<Rightarrow> bool) \<Rightarrow> string \<Rightarrow> bool" where
  "lookahead P xs = list_ex P (takeWhile (\<lambda>c. \<not> is_line_terminator c) xs)"

definition lookaheads_at :: "string \<Rightarrow> bool" where
  "lookaheads_at xs = (lookahead is_upper xs \<and> lookahead is_lower xs \<and> lookahead is_digit xs)"

text \<open>\<open>/(?=.*[A-Z])(?=.*[a-z])(?=.*\d)/.test(v)\<close>: the pattern is tried at every position.\<close>

fun password_pattern_test :: "string \<Rightarrow> bool" where
  "password_pattern_test [] = lookaheads_at []"
| "password_pattern_test (c # cs) = (lookaheads_at (c # cs) \<or> password_pattern_test cs)"

section \<open>Validators (part 4 of the script)\<close>

text \<open>
  The three lines every validator ends with: write \<open>validationMessage\<close> into the error
  slot, set \<open>aria-invalid\<close> to \<open>String(!el.checkValidity())\<close>, return
  \<open>el.checkValidity()\<close>.
\<close>

definition report :: "env \<Rightarrow> field \<Rightarrow> elem \<Rightarrow> page \<Rightarrow> bool \<times> page" where
  "report U f el s =
     (let shown = validationMessage U f el;
          el = el\<lparr>aria_invalid := Some (String_bool (\<not> checkValidity U f el))\<rparr>
      in (checkValidity U f el,
          s\<lparr>field_els := (field_els s)(f := el), errorEls := (errorEls s)(f := shown)\<rparr>))"

definition validateName :: "env \<Rightarrow> page \<Rightarrow> bool \<times> page" where
  "validateName U s0 =
     (let s = emit (Call FName) s0;
          el = setCustomValidity [] (field_els s FName);
          el = (if valueMissing el then setCustomValidity ''Name is required.'' el
                else if length (trim (val el)) < 2
                  then setCustomValidity ''Name must be at least 2 characters.'' el
                else el)
      in report U FName el s)"

definition validateEmail :: "env \<Rightarrow> page \<Rightarrow> bool \<times> page" where
  "validateEmail U s0 =
     (let s = emit (Call FEmail) s0;
          el = setCustomValidity [] (field_els s FEmail);
          el = (if valueMissing el then setCustomValidity ''Email is required.'' el
                else if typeMismatch U FEmail (val el)
                  then setCustomValidity ''Enter a valid email address.'' el
                else el)
      in report U FEmail el s)"

definition validatePassword :: "env \<Rightarrow> page \<Rightarrow> bool \<times> page" where
  "validatePassword U s0 =
     (let s = emit (Call FPassword) s0;
          el = setCustomValidity [] (field_els s FPassword);
          el = (if valueMissing el then setCustomValidity ''Password is required.'' el
                else if tooShort U FPassword (val el) (user_edited el)
                  then setCustomValidity ''Password must be at least 8 characters.'' el
                else if \<not> password_pattern_test (val el)
                  then setCustomValidity ''Add upper case, lower case, and a number.'' el
                else el)
      in report U FPassword el s)"

definition validatePhone :: "env \<Rightarrow> page \<Rightarrow> bool \<times> page" where
  "validatePhone U s0 =
     (let s = emit (Call FPhone) s0;
          el = setCustomValidity [] (field_els s FPhone);
          el = (if val el \<noteq> [] \<and> \<not> checkValidity U FPhone el
                  then setCustomValidity ''Phone format example: +358 40 123 4567'' el
                else el)
      in report U FPhone el s)"

definition validateCompany :: "env \<Rightarrow> page \<Rightarrow> bool \<times> page" where
  "validateCompany U s0 =
     (let s = emit (Call FCompany) s0
      in if companySection_hidden s then (True, s)
         else
           (let el = setCustomValidity [] (field_els s FCompany);
                el = (if valueMissing el
                        then setCustomValidity
                               ''Company name is required when registering as a company.'' el
                      else el)
            in report U FCompany el s))"

section \<open>Error summary (part 6 of the script)\<close>

text \<open>One line \<open>if (!validateX()) problems.push(label + fields.x.validationMessage)\<close>.\<close>

definition push_problem ::
  "env \<Rightarrow> string \<Rightarrow> field \<Rightarrow> bool \<times> page \<Rightarrow> string list \<Rightarrow> string list \<times> page" where
  "push_problem U label f r problems =
     (case r of (ok, s) \<Rightarrow>
        (if \<not> ok then problems @ [label @ validationMessage U f (field_els s f)] else problems, s))"

definition buildSummary :: "env \<Rightarrow> page \<Rightarrow> page" where
  "buildSummary U s0 =
     (let problems = [];
          (problems, s) = push_problem U ''Name: '' FName (validateName U s0) problems;
          (problems, s) = push_problem U ''Email: '' FEmail (validateEmail U s) problems;
          (problems, s) = push_problem U ''Password: '' FPassword (validatePassword U s) problems;
          (problems, s) = push_problem U ''Phone: '' FPhone (validatePhone U s) problems;
          (problems, s) =
             (if \<not> companySection_hidden s
              then push_problem U ''Company: '' FCompany (validateCompany U s) problems
              else (problems, s))
      in if problems \<noteq> []
         then s\<lparr>summary_hidden := False,
                summary_innerHTML := ''Please fix the following:<br>'' @ join ''<br>'' problems\<rparr>
         else s\<lparr>summary_hidden := True, summary_innerHTML := []\<rparr>)"

section \<open>Autosave (part 7 of the script)\<close>

definition STORAGE_KEY :: string where
  "STORAGE_KEY = ''ws5-signup''"

definition draft_data :: "page \<Rightarrow> jsval" where
  "draft_data s =
     JObj [(''name'', JStr (val (field_els s FName))),
           (''email'', JStr (val (field_els s FEmail))),
           (''phone'', JStr (val (field_els s FPhone))),
           (''password'', JStr (val (field_els s FPassword))),
           (''companyToggle'', JBool (companyToggle s)),
           (''company'', JStr (val (field_els s FCompany)))]"

definition saveDraft :: "env \<Rightarrow> page \<Rightarrow> page" where
  "saveDraft U s0 =
     (let data = draft_data s0;
          s = s0\<lparr>localStorage := (localStorage s0)(STORAGE_KEY \<mapsto> JSON_stringify U data)\<rparr>
      in emit (Console_log [JStr ''Saved Draft:'', data]) s)"

text \<open>
  Statements that may throw: the result carries the exception, if any, and the state
  reached when it was thrown (a \<open>catch\<close> does not undo what was written before).
\<close>

type_synonym stmt = "page \<Rightarrow> exn option \<times> page"

definition seq :: "stmt \<Rightarrow> stmt \<Rightarrow> stmt" where
  "seq a b s = (case a s of (None, s') \<Rightarrow> b s' | (Some e, s') \<Rightarrow> (Some e, s'))"

definition try_catch :: "stmt \<Rightarrow> (exn \<Rightarrow> stmt) \<Rightarrow> stmt" where
  "try_catch body handler s =
     (case body s of (None, s') \<Rightarrow> (None, s') | (Some e, s') \<Rightarrow> handler e s')"

text \<open>
  Assignment \<open>fields.f.value = v\<close> by the script.  The string is stored as given: what
  the setter of an input removes on its own (line breaks, and for an address input the
  blanks around it) depends on the type the markup gives the input and is left out.
  The values \<open>saveDraft\<close> writes were read from the inputs and carry none of it, and
  the phone normaliser writes digits and \<open>+\<close> only.
\<close>

definition set_value :: "field \<Rightarrow> string \<Rightarrow> page \<Rightarrow> page" where
  "set_value f v s =
     s\<lparr>field_els := (field_els s)(f := (field_els s f)\<lparr>val := v, user_edited := False\<rparr>)\<rparr>"

text \<open>One line \<open>fields.f.value = data.k || ''\<close>.\<close>

definition restore_value :: "jsval \<Rightarrow> string \<Rightarrow> field \<Rightarrow> stmt" where
  "restore_value data k f s =
     (case get_prop data k of
        Inl e \<Rightarrow> (Some e, s)
      | Inr v \<Rightarrow> (None, set_value f (toString (or_else v (JStr []))) s))"

text \<open>
  The lines \<open>fields.companyToggle.checked = Boolean(data.companyToggle)\<close> and
  \<open>companySection.hidden = !fields.companyToggle.checked\<close>.
\<close>

definition restore_toggle :: "jsval \<Rightarrow> stmt" where
  "restore_toggle data s =
     (case get_prop data ''companyToggle'' of
        Inl e \<Rightarrow> (Some e, s)
      | Inr v \<Rightarrow>
          (let s = s\<lparr>companyToggle := truthy v\<rparr>
           in (None, s\<lparr>companySection_hidden := \<not> companyToggle s\<rparr>)))"

definition restore_body :: "env \<Rightarrow> string \<Rightarrow> stmt" where
  "restore_body U raw s =
     (case JSON_parse U raw of
        Inl e \<Rightarrow> (Some e, s)
      | Inr data \<Rightarrow>
          seq (restore_value data ''name'' FName)
         (seq (restore_value data ''email'' FEmail)
         (seq (restore_value data ''phone'' FPhone)
         (seq (restore_value data ''password'' FPassword)
         (seq (restore_toggle data)
         (seq (restore_value data ''company'' FCompany)
              (\<lambda>s. (None, emit (Console_log [JStr ''Restored Draft:'', data]) s))))))) s)"

text \<open>
  \<open>restoreDraft\<close>: the first component of the result is the exception that leaves the
  function, if any.  \<open>getItem\<close> gives \<open>null\<close> for a missing key, and \<open>!raw\<close> also
  holds for the empty string.
\<close>

definition restoreDraft :: "env \<Rightarrow> stmt" where
  "restoreDraft U s =
     (case localStorage s STORAGE_KEY of
        None \<Rightarrow> (None, s)
      | Some raw \<Rightarrow>
          if raw = [] then (None, s)
          else try_catch (restore_body U raw)
                 (\<lambda>e s. (None, emit (Console_error ''Restore Error:'' e) s)) s)"

section \<open>Timers and the debounced invoker (part 3 of the script)\<close>

definition setTimeout :: "task \<Rightarrow> nat \<Rightarrow> page \<Rightarrow> nat \<times> page" where
  "setTimeout fn wait s =
     (next_timer s,
      s\<lparr>timers := timers s @ [(next_timer s, clock s + wait, fn)],
        next_timer := Suc (next_timer s)\<rparr>)"

text \<open>\<open>clearTimeout(undefined)\<close> does nothing.\<close>

definition clearTimeout :: "nat option \<Rightarrow> page \<Rightarrow> page" where
  "clearTimeout t s =
     (case t of None \<Rightarrow> s | Some i \<Rightarrow> s\<lparr>timers := filter (\<lambda>x. fst x \<noteq> i) (timers s)\<rparr>)"

text \<open>
  One call of a function returned by \<open>debounce(fn, wait)\<close>.  The closure's private
  variable \<open>timeout\<close> is passed in and its new value is returned; it is \<open>None\<close>
  (\<open>undefined\<close>) in a closure that was never called.
\<close>

definition debounce :: "task \<Rightarrow> nat \<Rightarrow> nat option \<Rightarrow> page \<Rightarrow> nat option \<times> page" where
  "debounce fn wait timeout s0 =
     (let s = clearTimeout timeout s0;
          (t, s) = setTimeout fn wait s
      in (Some t, s))"

definition validator :: "env \<Rightarrow> field \<Rightarrow> page \<Rightarrow> bool \<times> page" where
  "validator U f =
     (case f of FName \<Rightarrow> validateName U | FEmail \<Rightarrow> validateEmail U
      | FPassword \<Rightarrow> validatePassword U | FPhone \<Rightarrow> validatePhone U
      | FCompany \<Rightarrow> validateCompany U)"

definition run_task :: "env \<Rightarrow> task \<Rightarrow> page \<Rightarrow> page" where
  "run_task U t s = (case t of RunValidate f \<Rightarrow> snd (validator U f s) | RunSaveDraft \<Rightarrow> saveDraft U s)"

text \<open>
  Time passes: every timer that is due by then fires, earliest first (timers of the same
  due time in the order they were set).  No callback of the script sets a timer.
\<close>

definition elapse :: "env \<Rightarrow> nat \<Rightarrow> page \<Rightarrow> page" where
  "elapse U d s0 =
     (let now = clock s0 + d;
          ready = sort_key (\<lambda>x. fst (snd x)) (filter (\<lambda>x. fst (snd x) \<le> now) (timers s0));
          s = s0\<lparr>timers := filter (\<lambda>x. \<not> fst (snd x) \<le> now) (timers s0), clock := now\<rparr>
      in fold (\<lambda>x. run_task U (snd (snd x))) ready s)"

section \<open>Listeners (parts 2, 5, 7 and 10 of the script)\<close>

definition companyToggle_change :: "page \<Rightarrow> page" where
  "companyToggle_change s0 =
     (let s = s0\<lparr>companySection_hidden := \<not> companyToggle s0\<rparr>
      in if \<not> companySection_hidden s
         then s\<lparr>field_els := (field_els s)(FCompany := (field_els s FCompany)\<lparr>required := True\<rparr>)\<rparr>
         else s\<lparr>field_els := (field_els s)(FCompany := (field_els s FCompany)\<lparr>required := False\<rparr>),
                errorEls := (errorEls s)(FCompany := [])\<rparr>)"

text \<open>
  The listener \<open>() => { debounce(validateX, 150)(); buildSummary(); }\<close>: each event
  builds a new debounced function, calls it once and drops it.
\<close>

definition field_input :: "env \<Rightarrow> field \<Rightarrow> page \<Rightarrow> page" where
  "field_input U f s0 =
     (let (t, s) = debounce (RunValidate f) 150 None s0
      in buildSummary U s)"

text \<open>
  The two functions \<open>debounce(saveDraft, 300)\<close> registered on the form, one for \<open>input\<close>
  and one for \<open>change\<close>; each keeps its \<open>timeout\<close> between events.
\<close>

definition form_input :: "page \<Rightarrow> page" where
  "form_input s0 =
     (let (t, s) = debounce RunSaveDraft 300 (input_timeout s0) s0
      in s\<lparr>input_timeout := t\<rparr>)"

definition form_change :: "page \<Rightarrow> page" where
  "form_change s0 =
     (let (t, s) = debounce RunSaveDraft 300 (change_timeout s0) s0
      in s\<lparr>change_timeout := t\<rparr>)"

text \<open>\<open>replace(/[^0-9+]/g, '')\<close>.\<close>

fun strip_chars :: "string \<Rightarrow> string" where
  "strip_chars [] = []"
| "strip_chars (c # cs) =
     (if \<not> (is_digit c \<or> c = CHR ''+'') then strip_chars cs else c # strip_chars cs)"

definition startsWith :: "string \<Rightarrow> string \<Rightarrow> bool" where
  "startsWith s p = (take (length p) s = p)"

definition slice :: "nat \<Rightarrow> string \<Rightarrow> string" where
  "slice n s = drop n s"

definition phone_blur :: "page \<Rightarrow> page" where
  "phone_blur s0 =
     (let digits = strip_chars (val (field_els s0 FPhone));
          s = (if startsWith digits ''0'' then set_value FPhone (''+358'' @ slice 1 digits) s0
               else if startsWith digits ''+'' then set_value FPhone digits s0
               else set_value FPhone (''+358'' @ digits) s0)
      in emit (Console_log [JStr ''Normalised Phone:'', JStr (val (field_els s FPhone))]) s)"

section \<open>Clear button (part 8 of the script)\<close>

text \<open>
  \<open>form.reset()\<close> puts every control back to its default value or checkedness; it
  touches no attribute, no custom validity message and fires neither \<open>input\<close> nor
  \<open>change\<close>.
\<close>

definition form_reset :: "env \<Rightarrow> page \<Rightarrow> page" where
  "form_reset U s =
     s\<lparr>field_els := (\<lambda>f. (field_els s f)\<lparr>val := defaultValue U f, user_edited := False\<rparr>),
       companyToggle := defaultChecked U,
       hp := defaultHp U\<rparr>"

definition clearBtn_click :: "env \<Rightarrow> page \<Rightarrow> page" where
  "clearBtn_click U s0 =
     (let s = form_reset U s0;
          s = s\<lparr>localStorage := (localStorage s)(STORAGE_KEY := None)\<rparr>;
          s = s\<lparr>errorEls := (\<lambda>f. [])\<rparr>;
          s = s\<lparr>companySection_hidden := True\<rparr>;
          s = buildSummary U s
      in emit (Console_log [JStr ''Form Cleared'']) s)"

section \<open>Submission (part 9 of the script)\<close>

text \<open>
  What the request comes to: the promise of \<open>fetch\<close> rejects, or it resolves with a
  response that has a status code and whose \<open>json()\<close> rejects (\<open>Inl\<close>) or gives a value
  (\<open>Inr\<close>).  A response with an error status resolves the promise like any other.
\<close>

datatype fetch_outcome = Rejected exn | Responded nat "exn + jsval"

text \<open>The operator \<open>a() && b()\<close>: \<open>b\<close> runs only when \<open>a\<close> returned true.\<close>

definition and_also ::
  "(page \<Rightarrow> bool \<times> page) \<Rightarrow> (page \<Rightarrow> bool \<times> page) \<Rightarrow> page \<Rightarrow> bool \<times> page" where
  "and_also a b s = (case a s of (ok, s') \<Rightarrow> if ok then b s' else (False, s'))"

definition validity_check :: "env \<Rightarrow> page \<Rightarrow> bool \<times> page" where
  "validity_check U =
     and_also (and_also (and_also (and_also (validateName U) (validateEmail U))
       (validatePassword U)) (validatePhone U)) (validateCompany U)"

text \<open>
  \<open>form.querySelector('[aria-invalid="true"]')\<close>: the first element in document order
  that carries the marker.  Only the validators write the attribute, so only the five
  validated inputs are looked at.
\<close>

definition querySelector_invalid :: "env \<Rightarrow> page \<Rightarrow> field option" where
  "querySelector_invalid U s =
     find (\<lambda>f. aria_invalid (field_els s f) = Some ''true'') (form_order U)"

text \<open>The handler up to and including \<open>buildSummary()\<close>.\<close>

definition submit_check :: "env \<Rightarrow> page \<Rightarrow> bool \<times> page" where
  "submit_check U s0 =
     (let s = emit PreventDefault s0;
          (isValid, s) = validity_check U s;
          s = buildSummary U s
      in (isValid, s))"

definition ENDPOINT :: string where
  "ENDPOINT = ''https://jsonplaceholder.typicode.com/posts''"

definition payload_of :: "env \<Rightarrow> page \<Rightarrow> jsval" where
  "payload_of U s =
     JObj [(''name'', JStr (val (field_els s FName))),
           (''email'', JStr (val (field_els s FEmail))),
           (''phone'', JStr (val (field_els s FPhone))),
           (''company'', JStr (if companyToggle s then val (field_els s FCompany) else [])),
           (''time'', JStr (toISOString U (clock s)))]"

text \<open>The \<open>try\<close> block around \<open>fetch\<close> with its \<open>catch\<close>.\<close>

definition send :: "env \<Rightarrow> fetch_outcome \<Rightarrow> jsval \<Rightarrow> stmt" where
  "send U outcome payload =
     try_catch
       (\<lambda>s0. let s = emit (Fetch ENDPOINT (JSON_stringify U payload)) s0
             in case outcome of
                  Rejected e \<Rightarrow> (Some e, s)
                | Responded status (Inl e) \<Rightarrow> (Some e, s)
                | Responded status (Inr data) \<Rightarrow>
                    (case get_prop data ''id'' of
                       Inl e \<Rightarrow> (Some e, s)
                     | Inr i \<Rightarrow>
                         (let s = emit (Alert (''Submitted successfully. Demo ID: '' @ toString i)) s
                          in (None, emit (Console_log [JStr ''Submitted Data:'', payload]) s))))
       (\<lambda>e s0. let s = emit (Alert ''Network error occurred. Please try again.'') s0
               in (None, emit (Console_error ''Submission Error:'' e) s))"

text \<open>The handler after the validity check: honeypot, payload, request.\<close>

definition submit_proceed :: "env \<Rightarrow> fetch_outcome \<Rightarrow> page \<Rightarrow> page" where
  "submit_proceed U outcome s =
     (if hp s \<noteq> [] then emit (Alert ''Submission blocked due to bot detection.'') s
      else snd (send U outcome (payload_of U s) s))"

definition submit :: "env \<Rightarrow> fetch_outcome \<Rightarrow> page \<Rightarrow> page" where
  "submit U outcome s0 =
     (let (isValid, s) = submit_check U s0;
          firstInvalid = querySelector_invalid U s
      in case (isValid, firstInvalid) of
           (False, Some f) \<Rightarrow> emit (Focus f) s
         | _ \<Rightarrow> submit_proceed U outcome s)"

section \<open>Events of the page\<close>

text \<open>
  What can happen to the page after it was loaded: the user types into a validated
  input (\<open>input\<close> on the element, then on the form), something fills the honeypot, a
  text input commits its value (\<open>change\<close> on the form), the checkbox is clicked
  (\<open>input\<close>, then \<open>change\<close>, both reaching the form), the phone input loses focus, the
  clear button is clicked, the form is submitted, time passes.
\<close>

datatype event =
    Type field string
  | TypeHp string
  | Commit
  | Toggle
  | BlurPhone
  | ClickClear
  | SubmitForm fetch_outcome
  | Wait nat

definition user_types :: "field \<Rightarrow> string \<Rightarrow> page \<Rightarrow> page" where
  "user_types f v s =
     s\<lparr>field_els := (field_els s)(f := (field_els s f)\<lparr>val := v, user_edited := True\<rparr>)\<rparr>"

definition step :: "env \<Rightarrow> event \<Rightarrow> page \<Rightarrow> page" where
  "step U ev s =
     (case ev of
        Type f v \<Rightarrow> form_input (field_input U f (user_types f v s))
      | TypeHp v \<Rightarrow> form_input (s\<lparr>hp := v\<rparr>)
      | Commit \<Rightarrow> form_change s
      | Toggle \<Rightarrow>
          form_change (companyToggle_change (form_input (s\<lparr>companyToggle := \<not> companyToggle s\<rparr>)))
      | BlurPhone \<Rightarrow> phone_blur s
      | ClickClear \<Rightarrow> clearBtn_click U s
      | SubmitForm outcome \<Rightarrow> submit U outcome s
      | Wait d \<Rightarrow> elapse U d s)"

text \<open>Loading the page runs \<open>restoreDraft()\<close> once, before any event.\<close>

definition load :: "env \<Rightarrow> page \<Rightarrow> page" where
  "load U s = snd (restoreDraft U s)"

definition run :: "env \<Rightarrow> event list \<Rightarrow> page \<Rightarrow> page" where
  "run U evs s = fold (step U) evs s"

text \<open>The effects added to the trace between two states.\<close>

definition emitted :: "page \<Rightarrow> page \<Rightarrow> effect list" where
  "emitted s s' = drop (length (effects s)) (effects s')"

section \<open>Normal forms of the validators and of the summary\<close>

text \<open>
  The message a validator picks with \<open>setCustomValidity\<close>, as a function of the element
  it finds: the \<open>if\<close>-chain of each validator, read off the script.
\<close>

definition chosen :: "env \<Rightarrow> field \<Rightarrow> elem \<Rightarrow> string" where
  "chosen U f el =
     (case f of
        FName \<Rightarrow>
          if valueMissing el then ''Name is required.''
          else if length (trim (val el)) < 2 then ''Name must be at least 2 characters.''
          else []
      | FEmail \<Rightarrow>
          if valueMissing el then ''Email is required.''
          else if typeMismatch U FEmail (val el) then ''Enter a valid email address.''
          else []
      | FPassword \<Rightarrow>
          if valueMissing el then ''Password is required.''
          else if tooShort U FPassword (val el) (user_edited el)
            then ''Password must be at least 8 characters.''
          else if \<not> password_pattern_test (val el)
            then ''Add upper case, lower case, and a number.''
          else []
      | FPhone \<Rightarrow>
          if val el \<noteq> [] \<and> \<not> checkValidity U FPhone (setCustomValidity [] el)
            then ''Phone format example: +358 40 123 4567''
          else []
      | FCompany \<Rightarrow>
          if valueMissing el then ''Company name is required when registering as a company.''
          else [])"

definition settle :: "env \<Rightarrow> field \<Rightarrow> elem \<Rightarrow> elem" where
  "settle U f el =
     (let e = setCustomValidity (chosen U f el) el
      in e\<lparr>aria_invalid := Some (String_bool (\<not> checkValidity U f e))\<rparr>)"

definition validated :: "env \<Rightarrow> field \<Rightarrow> page \<Rightarrow> page" where
  "validated U f s =
     s\<lparr>field_els := (field_els s)(f := settle U f (field_els s f)),
       errorEls := (errorEls s)(f := validationMessage U f (settle U f (field_els s f))),
       effects := effects s @ [Call f]\<rparr>"

definition line :: "env \<Rightarrow> string \<Rightarrow> field \<Rightarrow> page \<Rightarrow> string list" where
  "line U label f s =
     (if checkValidity U f (settle U f (field_els s f)) then []
      else [label @ validationMessage U f (settle U f (field_els s f))])"

definition problems_of :: "env \<Rightarrow> page \<Rightarrow> string list" where
  "problems_of U s =
     line U ''Name: '' FName s @ line U ''Email: '' FEmail s @ line U ''Password: '' FPassword s
     @ line U ''Phone: '' FPhone s
     @ (if companySection_hidden s then [] else line U ''Company: '' FCompany s)"

definition all_validated :: "env \<Rightarrow> page \<Rightarrow> page" where
  "all_validated U s =
     (let s4 = validated U FPhone (validated U FPassword (validated U FEmail (validated U FName s)))
      in if companySection_hidden s then s4 else validated U FCompany s4)"

definition render :: "string list \<Rightarrow> page \<Rightarrow> page" where
  "render problems s =
     (if problems \<noteq> []
      then s\<lparr>summary_hidden := False,
             summary_innerHTML := ''Please fix the following:<br>'' @ join ''<br>'' problems\<rparr>
      else s\<lparr>summary_hidden := True, summary_innerHTML := []\<rparr>)"

section \<open>A sample environment\<close>

text \<open>
  One concrete environment, for the instances of the theorems at concrete pages: a
  writer and a reader for flat JSON objects (members that are strings, booleans or
  \<open>null\<close>; quotes and backslashes escaped), and constraints as markup for this form
  could state them (an address needs an \<open>@\<close>, an edited password eight characters, a
  phone number only digits, blanks and \<open>+\<close>).
\<close>

definition dquote :: char where
  "dquote = CHR 0x22"

definition backslash :: char where
  "backslash = CHR 0x5C"

fun escape :: "string \<Rightarrow> string" where
  "escape [] = []"
| "escape (c # cs) =
     (if c = dquote \<or> c = backslash then backslash # c # escape cs else c # escape cs)"

definition quote :: "string \<Rightarrow> string" where
  "quote s = dquote # escape s @ [dquote]"

fun write_scalar :: "jsval \<Rightarrow> string" where
  "write_scalar (JStr s) = quote s"
| "write_scalar (JBool b) = (if b then ''true'' else ''false'')"
| "write_scalar (JNum n) = toString (JNum n)"
| "write_scalar v = ''null''"

definition write_member :: "string \<times> jsval \<Rightarrow> string" where
  "write_member kv = quote (fst kv) @ '':'' @ write_scalar (snd kv)"

definition flat_stringify :: "jsval \<Rightarrow> string" where
  "flat_stringify v =
     (case v of JObj kvs \<Rightarrow> ''{'' @ join '','' (map write_member kvs) @ ''}''
      | _ \<Rightarrow> write_scalar v)"

fun read_string :: "string \<Rightarrow> (string \<times> string) option" where
  "read_string [] = None"
| "read_string (c # cs) =
     (if c = dquote then Some ([], cs)
      else if c = backslash then
        (case cs of
           [] \<Rightarrow> None
         | d # ds \<Rightarrow>
             if d = dquote \<or> d = backslash
             then map_option (\<lambda>r. (d # fst r, snd r)) (read_string ds)
             else None)
      else map_option (\<lambda>r. (c # fst r, snd r)) (read_string cs))"

definition read_scalar :: "string \<Rightarrow> (jsval \<times> string) option" where
  "read_scalar cs =
     (if take 1 cs = [dquote] then map_option (\<lambda>r. (JStr (fst r), snd r)) (read_string (drop 1 cs))
      else if take 4 cs = ''true'' then Some (JBool True, drop 4 cs)
      else if take 5 cs = ''false'' then Some (JBool False, drop 5 cs)
      else if take 4 cs = ''null'' then Some (JNull, drop 4 cs)
      else None)"

fun read_members :: "nat \<Rightarrow> string \<Rightarrow> ((string \<times> jsval) list \<times> string) option" where
  "read_members 0 cs = None"
| "read_members (Suc n) cs =
     (if take 1 cs = [dquote] then
        (case read_string (drop 1 cs) of
           None \<Rightarrow> None
         | Some (k, r1) \<Rightarrow>
             if take 1 r1 = '':'' then
               (case read_scalar (drop 1 r1) of
                  None \<Rightarrow> None
                | Some (v, r2) \<Rightarrow>
                    if take 1 r2 = '','' then
                      map_option (\<lambda>r. ((k, v) # fst r, snd r)) (read_members n (drop 1 r2))
                    else if take 1 r2 = ''}'' then Some ([(k, v)], drop 1 r2)
                    else None)
             else None)
      else None)"

definition flat_parse :: "string \<Rightarrow> exn + jsval" where
  "flat_parse cs =
     (if cs = ''{}'' then Inr (JObj [])
      else if take 1 cs = ''{'' then
        (case read_members (length cs) (drop 1 cs) of
           Some (kvs, []) \<Rightarrow> Inr (JObj kvs)
         | _ \<Rightarrow> Inl SyntaxError)
      else
        (case read_scalar cs of
           Some (v, []) \<Rightarrow> Inr v
         | _ \<Rightarrow> Inl SyntaxError))"

definition sample_env :: env where
  "sample_env =
     \<lparr>typeMismatch = (\<lambda>f v. f = FEmail \<and> v \<noteq> [] \<and> CHR ''@'' \<notin> set v),
      tooShort = (\<lambda>f v edited. f = FPassword \<and> edited \<and> v \<noteq> [] \<and> length v < 8),
      otherInvalid = (\<lambda>f v. f = FPhone \<and> v \<noteq> [] \<and> \<not> list_all (\<lambda>c. c \<in> set ''+0123456789 '') v),
      uaMessage = (\<lambda>f v r edited. ''Please match the requested format.''),
      form_order = [FName, FEmail, FPassword, FPhone, FCompany],
      defaultValue = (\<lambda>f. []),
      defaultHp = [],
      defaultChecked = False,
      JSON_stringify = flat_stringify,
      JSON_parse = flat_parse,
      toISOString = (\<lambda>t. ''1970-01-01T00:00:00.000Z'')\<rparr>"

definition blank_elem :: "bool \<Rightarrow> elem" where
  "blank_elem r = \<lparr>val = [], required = r, customValidity = [], aria_invalid = None, user_edited = False\<rparr>"

text \<open>The page as loaded without a draft, and the same page filled in by the user.\<close>

definition sample_page :: page where
  "sample_page =
     \<lparr>field_els = (\<lambda>f. blank_elem (f = FName \<or> f = FEmail \<or> f = FPassword)),
      companyToggle = False,
      hp = [],
      errorEls = (\<lambda>f. []),
      companySection_hidden = True,
      summary_hidden = True,
      summary_innerHTML = [],
      localStorage = Map.empty,
      timers = [],
      next_timer = 1,
      clock = 0,
      input_timeout = None,
      change_timeout = None,
      effects = []\<rparr>"

definition filled_page :: page where
  "filled_page =
     user_types FName ''Ada Lovelace''
       (user_types FEmail ''ada@example.org''
         (user_types FPassword ''Engine1843''
           (user_types FPhone ''040 123 4567'' sample_page)))"

section \<open>Auxiliary notions for the statements\<close>

definition is_call :: "effect \<Rightarrow> bool" where
  "is_call e = (case e of Call f \<Rightarrow> True | _ \<Rightarrow> False)"

text \<open>The effects other than calls of validators.\<close>

definition outward :: "effect list \<Rightarrow> effect list" where
  "outward es = filter (\<lambda>e. \<not> is_call e) es"

text \<open>What no validator and no summary writes.\<close>

definition untouched ::
  "page \<Rightarrow> (field \<Rightarrow> string \<times> bool \<times> bool) \<times> bool \<times> bool \<times> string \<times> (string \<rightharpoonup> string)
     \<times> (nat \<times> nat \<times> task) list \<times> nat \<times> nat \<times> nat option \<times> nat option" where
  "untouched s =
     ((\<lambda>f. (val (field_els s f), required (field_els s f), user_edited (field_els s f))),
      companySection_hidden s, companyToggle s, hp s, localStorage s,
      timers s, next_timer s, clock s, input_timeout s, change_timeout s)"

text \<open>
  The phone normaliser in the words of the specification, with every \<open>+\<close> kept
  (\<open>normalise_kept\<close>) and with only a leading \<open>+\<close> kept (\<open>normalise_leading\<close>).
\<close>

definition normalise_kept :: "string \<Rightarrow> string" where
  "normalise_kept v =
     (case filter (\<lambda>c. is_digit c \<or> c = CHR ''+'') v of
        [] \<Rightarrow> ''+358''
      | c # r \<Rightarrow>
          if c = CHR ''0'' then ''+358'' @ r
          else if c = CHR ''+'' then c # r
          else ''+358'' @ c # r)"

definition normalise_leading :: "string \<Rightarrow> string" where
  "normalise_leading v =
     (case filter (\<lambda>c. is_digit c \<or> c = CHR ''+'') v of
        [] \<Rightarrow> ''+358''
      | c # r \<Rightarrow>
          if c = CHR ''0'' then ''+358'' @ filter is_digit r
          else if c = CHR ''+'' then c # filter is_digit r
          else ''+358'' @ c # filter is_digit r)"



text \<open>The result of the validator of \<open>f\<close> on a page where \<open>f\<close> is validated.\<close>

definition passes :: "env \<Rightarrow> field \<Rightarrow> page \<Rightarrow> bool" where
  "passes U f s = checkValidity U f (settle U f (field_els s f))"

text \<open>The elements as the validators would leave them.\<close>

definition settled :: "env \<Rightarrow> page \<Rightarrow> field \<Rightarrow> elem" where
  "settled U s f = settle U f (field_els s f)"

text \<open>From \<open>s\<close> to \<open>s'\<close> the trace grew by calls of validators only.\<close>

definition calls_only :: "page \<Rightarrow> page \<Rightarrow> bool" where
  "calls_only s s' = (\<exists>cs. effects s' = effects s @ cs \<and> outward cs = [])"

section \<open>Sample pages\<close>

text \<open>The filled page with the company section opened and a company typed in.\<close>

definition company_page :: page where
  "company_page =
     user_types FCompany ''Analytical Engines''
       (companyToggle_change (filled_page\<lparr>companyToggle := True\<rparr>))"

text \<open>A freshly loaded page whose storage holds the draft saved from \<open>company_page\<close>.\<close>

definition reloaded_page :: page where
  "reloaded_page = sample_page\<lparr>localStorage := localStorage (saveDraft sample_env company_page)\<rparr>"

text \<open>A stored draft cut off after twelve characters.\<close>

definition truncated :: string where
  "truncated = take 12 (JSON_stringify sample_env (draft_data filled_page))"

definition broken_page :: page where
  "broken_page = sample_page\<lparr>localStorage := [STORAGE_KEY \<mapsto> truncated]\<rparr>"

definition saved_page :: page where
  "saved_page = saveDraft sample_env filled_page"

text \<open>The sample page with a valid name typed in; email and password are still empty.\<close>

definition email_bad_page :: page where
  "email_bad_page = user_types FName ''Ada Lovelace'' sample_page"


section \<open>Validators in normal form\<close>

text \<open>
  Every validator writes the element \<open>settle U f\<close> of its input and the message of
  that element, and returns its validity; \<open>validateCompany\<close> only when the company
  section is shown.
\<close>

lemma checkValidity_aria [simp]:
  "checkValidity U f (el\<lparr>aria_invalid := a\<rparr>) = checkValidity U f el"
  by (simp add: checkValidity_def valueMissing_def customError_def)

lemma validationMessage_aria [simp]:
  "validationMessage U f (el\<lparr>aria_invalid := a\<rparr>) = validationMessage U f el"
  by (simp add: validationMessage_def customError_def)

lemma emit_sel [simp]:
  "field_els (emit e s) = field_els s"
  "errorEls (emit e s) = errorEls s"
  "companySection_hidden (emit e s) = companySection_hidden s"
  "companyToggle (emit e s) = companyToggle s"
  "hp (emit e s) = hp s"
  "localStorage (emit e s) = localStorage s"
  "clock (emit e s) = clock s"
  "summary_hidden (emit e s) = summary_hidden s"
  "summary_innerHTML (emit e s) = summary_innerHTML s"
  "effects (emit e s) = effects s @ [e]"
  by (simp_all add: emit_def)

lemma validateName_nf:
  "validateName U s = (checkValidity U FName (settle U FName (field_els s FName)), validated U FName s)"
  by (simp add: validateName_def report_def validated_def settle_def chosen_def emit_def Let_def
      setCustomValidity_def valueMissing_def)

lemma validateEmail_nf:
  "validateEmail U s = (checkValidity U FEmail (settle U FEmail (field_els s FEmail)), validated U FEmail s)"
  by (simp add: validateEmail_def report_def validated_def settle_def chosen_def emit_def Let_def
      setCustomValidity_def valueMissing_def)

lemma validatePassword_nf:
  "validatePassword U s = (checkValidity U FPassword (settle U FPassword (field_els s FPassword)), validated U FPassword s)"
  by (simp add: validatePassword_def report_def validated_def settle_def chosen_def emit_def Let_def
      setCustomValidity_def valueMissing_def)

lemma validatePhone_nf:
  "validatePhone U s = (checkValidity U FPhone (settle U FPhone (field_els s FPhone)), validated U FPhone s)"
  by (simp add: validatePhone_def report_def validated_def settle_def chosen_def emit_def Let_def
      setCustomValidity_def valueMissing_def)

lemma validateCompany_nf:
  "validateCompany U s =
     (if companySection_hidden s then (True, emit (Call FCompany) s)
      else (checkValidity U FCompany (settle U FCompany (field_els s FCompany)), validated U FCompany s))"
  by (simp add: validateCompany_def report_def validated_def settle_def chosen_def emit_def Let_def
      setCustomValidity_def valueMissing_def)

lemma validated_simps [simp]:
  "companySection_hidden (validated U f s) = companySection_hidden s"
  "g \<noteq> f \<Longrightarrow> field_els (validated U f s) g = field_els s g"
  "field_els (validated U f s) f = settle U f (field_els s f)"
  by (simp_all add: validated_def)

lemma validated_frame [simp]:
  "companyToggle (validated U f s) = companyToggle s"
  "hp (validated U f s) = hp s"
  "summary_hidden (validated U f s) = summary_hidden s"
  "summary_innerHTML (validated U f s) = summary_innerHTML s"
  "localStorage (validated U f s) = localStorage s"
  "timers (validated U f s) = timers s"
  "next_timer (validated U f s) = next_timer s"
  "clock (validated U f s) = clock s"
  "input_timeout (validated U f s) = input_timeout s"
  "change_timeout (validated U f s) = change_timeout s"
  "effects (validated U f s) = effects s @ [Call f]"
  "errorEls (validated U f s) = (errorEls s)(f := validationMessage U f (settle U f (field_els s f)))"
  by (simp_all add: validated_def)

lemma validator_unfold:
  "validateName U = validator U FName" "validateEmail U = validator U FEmail"
  "validatePassword U = validator U FPassword" "validatePhone U = validator U FPhone"
  "validateCompany U = validator U FCompany"
  by (simp_all add: validator_def)

lemma snd_validator:
  "snd (validator U f s) =
     (if f = FCompany \<and> companySection_hidden s then emit (Call f) s else validated U f s)"
  by (cases f)
     (simp_all add: validator_def validateName_nf validateEmail_nf validatePassword_nf
        validatePhone_nf validateCompany_nf)

lemma fst_validator:
  "fst (validator U f s) = (if f = FCompany \<and> companySection_hidden s then True else passes U f s)"
  by (cases f)
     (simp_all add: validator_def passes_def validateName_nf validateEmail_nf validatePassword_nf
        validatePhone_nf validateCompany_nf)

lemma effects_validator [simp]: "effects (snd (validator U f s)) = effects s @ [Call f]"
  by (cases f)
     (simp_all add: validator_def validateName_nf validateEmail_nf validatePassword_nf
        validatePhone_nf validateCompany_nf emit_def)

lemma checkValidity_cong:
  "val e' = val e \<Longrightarrow> required e' = required e \<Longrightarrow> user_edited e' = user_edited e
   \<Longrightarrow> customValidity e' = customValidity e
   \<Longrightarrow> checkValidity U f e' = checkValidity U f e"
  by (simp add: checkValidity_def valueMissing_def customError_def)

lemma chosen_cong:
  "val e' = val e \<Longrightarrow> required e' = required e \<Longrightarrow> user_edited e' = user_edited e
   \<Longrightarrow> chosen U f e' = chosen U f e"
proof -
  assume a: "val e' = val e" "required e' = required e" "user_edited e' = user_edited e"
  have "checkValidity U FPhone (setCustomValidity [] e') = checkValidity U FPhone (setCustomValidity [] e)"
    by (rule checkValidity_cong) (simp_all add: a setCustomValidity_def)
  with a show ?thesis
    by (cases f) (simp_all add: chosen_def valueMissing_def)
qed

lemma settle_sel [simp]:
  "val (settle U f el) = val el"
  "required (settle U f el) = required el"
  "user_edited (settle U f el) = user_edited el"
  "customValidity (settle U f el) = chosen U f el"
  by (simp_all add: settle_def setCustomValidity_def Let_def)

lemma checkValidity_settle:
  "checkValidity U f (settle U f el) = checkValidity U f (setCustomValidity (chosen U f el) el)"
  by (simp add: settle_def Let_def)

lemma settle_idem [simp]: "settle U f (settle U f el) = settle U f el"
proof -
  have c: "chosen U f (settle U f el) = chosen U f el"
    by (rule chosen_cong) simp_all
  have v: "checkValidity U f (setCustomValidity (chosen U f el) (settle U f el))
         = checkValidity U f (setCustomValidity (chosen U f el) el)"
    by (rule checkValidity_cong) (simp_all add: setCustomValidity_def)
  show ?thesis
    unfolding settle_def [of U f "settle U f el"] c Let_def v
    by (simp add: settle_def setCustomValidity_def Let_def)
qed

lemma fst_and_also: "fst (and_also a b s) = (fst (a s) \<and> fst (b (snd (a s))))"
  by (cases "a s") (simp add: and_also_def)

lemma snd_and_also: "snd (and_also a b s) = (if fst (a s) then snd (b (snd (a s))) else snd (a s))"
  by (cases "a s") (simp add: and_also_def)

section \<open>The error summary\<close>

lemma push_name:
  "push_problem U label FName (validateName U s) ps = (ps @ line U label FName s, validated U FName s)"
  by (simp add: push_problem_def validateName_nf line_def)

lemma push_email:
  "push_problem U label FEmail (validateEmail U s) ps = (ps @ line U label FEmail s, validated U FEmail s)"
  by (simp add: push_problem_def validateEmail_nf line_def)

lemma push_password:
  "push_problem U label FPassword (validatePassword U s) ps = (ps @ line U label FPassword s, validated U FPassword s)"
  by (simp add: push_problem_def validatePassword_nf line_def)

lemma push_phone:
  "push_problem U label FPhone (validatePhone U s) ps = (ps @ line U label FPhone s, validated U FPhone s)"
  by (simp add: push_problem_def validatePhone_nf line_def)

lemma push_company:
  "\<not> companySection_hidden s \<Longrightarrow>
   push_problem U label FCompany (validateCompany U s) ps = (ps @ line U label FCompany s, validated U FCompany s)"
  by (simp add: push_problem_def validateCompany_nf line_def)

lemma line_validated [simp]:
  "g \<noteq> f \<Longrightarrow> line U label f (validated U g s) = line U label f s"
  by (simp add: line_def)

lemma buildSummary_nf:
  "buildSummary U s = render (problems_of U s) (all_validated U s)"
proof (cases "companySection_hidden s")
  case True
  then show ?thesis
    unfolding buildSummary_def Let_def push_name push_email push_password push_phone
    by (simp add: render_def problems_of_def all_validated_def)
next
  case False
  then show ?thesis
    unfolding buildSummary_def Let_def push_name push_email push_password push_phone
    by (simp add: render_def problems_of_def all_validated_def push_company)
qed

lemma all_validated_frame [simp]:
  "companySection_hidden (all_validated U s) = companySection_hidden s"
  "companyToggle (all_validated U s) = companyToggle s"
  "hp (all_validated U s) = hp s"
  "summary_hidden (all_validated U s) = summary_hidden s"
  "summary_innerHTML (all_validated U s) = summary_innerHTML s"
  "localStorage (all_validated U s) = localStorage s"
  "timers (all_validated U s) = timers s"
  "next_timer (all_validated U s) = next_timer s"
  "clock (all_validated U s) = clock s"
  "input_timeout (all_validated U s) = input_timeout s"
  "change_timeout (all_validated U s) = change_timeout s"
  by (simp_all add: all_validated_def Let_def)

lemma field_els_all_validated:
  "field_els (all_validated U s) f =
     (if f = FCompany \<and> companySection_hidden s then field_els s f else settle U f (field_els s f))"
  by (cases f) (simp_all add: all_validated_def Let_def)

lemma errorEls_all_validated:
  "errorEls (all_validated U s) f =
     (if f = FCompany \<and> companySection_hidden s then errorEls s f
      else validationMessage U f (settle U f (field_els s f)))"
  by (cases f) (simp_all add: all_validated_def Let_def)

lemma effects_all_validated:
  "effects (all_validated U s) =
     effects s @ [Call FName, Call FEmail, Call FPassword, Call FPhone]
       @ (if companySection_hidden s then [] else [Call FCompany])"
  by (simp add: all_validated_def Let_def)

lemma render_frame [simp]:
  "field_els (render p s) = field_els s"
  "errorEls (render p s) = errorEls s"
  "companySection_hidden (render p s) = companySection_hidden s"
  "companyToggle (render p s) = companyToggle s"
  "hp (render p s) = hp s"
  "localStorage (render p s) = localStorage s"
  "timers (render p s) = timers s"
  "next_timer (render p s) = next_timer s"
  "clock (render p s) = clock s"
  "input_timeout (render p s) = input_timeout s"
  "change_timeout (render p s) = change_timeout s"
  "effects (render p s) = effects s"
  "summary_hidden (render p s) = (p = [])"
  "summary_innerHTML (render p s) =
     (if p = [] then [] else ''Please fix the following:<br>'' @ join ''<br>'' p)"
  by (simp_all add: render_def)

lemma line_buildSummary:
  "f \<noteq> FCompany \<or> \<not> companySection_hidden s \<Longrightarrow> line U l f (buildSummary U s) = line U l f s"
  by (simp add: line_def buildSummary_nf field_els_all_validated)

lemma problems_of_buildSummary: "problems_of U (buildSummary U s) = problems_of U s"
  by (simp add: problems_of_def line_buildSummary) (simp add: buildSummary_nf)

lemma buildSummary_twice:
  "(buildSummary U (buildSummary U s))\<lparr>effects := e\<rparr> = (buildSummary U s)\<lparr>effects := e\<rparr>"
proof (rule page.equality)
  show "field_els ((buildSummary U (buildSummary U s))\<lparr>effects := e\<rparr>) = field_els ((buildSummary U s)\<lparr>effects := e\<rparr>)"
    by (rule ext) (simp add: buildSummary_nf [of U "buildSummary U s"] problems_of_buildSummary field_els_all_validated,
        simp add: buildSummary_nf field_els_all_validated)
  show "errorEls ((buildSummary U (buildSummary U s))\<lparr>effects := e\<rparr>) = errorEls ((buildSummary U s)\<lparr>effects := e\<rparr>)"
    by (rule ext) (simp add: buildSummary_nf [of U "buildSummary U s"] problems_of_buildSummary errorEls_all_validated,
        simp add: buildSummary_nf field_els_all_validated errorEls_all_validated)
qed (simp_all add: buildSummary_nf [of U "buildSummary U s"] problems_of_buildSummary, simp_all add: buildSummary_nf)

text \<open>
  C7: building the error summary twice in a row, with nothing changing in between,
  renders the same summary text and the same visibility both times; the second call
  changes nothing on the page at all, it only adds to the trace of calls.
\<close>

theorem buildSummary_idempotent:
  "summary_innerHTML (buildSummary U (buildSummary U s)) = summary_innerHTML (buildSummary U s)
   \<and> summary_hidden (buildSummary U (buildSummary U s)) = summary_hidden (buildSummary U s)
   \<and> (buildSummary U (buildSummary U s))\<lparr>effects := []\<rparr> = (buildSummary U s)\<lparr>effects := []\<rparr>"
proof -
  have e: "(buildSummary U (buildSummary U s))\<lparr>effects := []\<rparr> = (buildSummary U s)\<lparr>effects := []\<rparr>"
    by (rule buildSummary_twice)
  have h1: "summary_innerHTML (buildSummary U (buildSummary U s)) = summary_innerHTML (buildSummary U s)"
    using arg_cong [OF e, of summary_innerHTML] by simp
  have h2: "summary_hidden (buildSummary U (buildSummary U s)) = summary_hidden (buildSummary U s)"
    using arg_cong [OF e, of summary_hidden] by simp
  show ?thesis
    by (intro conjI) (fact h1, fact h2, fact e)
qed

lemma validated_fixed:
  assumes "field_els s f = settle U f el" and "errorEls s f = validationMessage U f (settle U f el)"
  shows "(validated U f s)\<lparr>effects := e\<rparr> = s\<lparr>effects := e\<rparr>"
proof -
  have 1: "settle U f (field_els s f) = field_els s f"
    by (simp add: assms(1))
  have 2: "(field_els s)(f := field_els s f) = field_els s"
    by (rule fun_upd_triv)
  have 3: "(errorEls s)(f := validationMessage U f (field_els s f)) = errorEls s"
    using assms by (metis fun_upd_triv)
  show ?thesis
    by (simp add: validated_def 1 2 3)
qed

lemma validator_after_buildSummary:
  "(snd (validator U f (buildSummary U s)))\<lparr>effects := e\<rparr> = (buildSummary U s)\<lparr>effects := e\<rparr>"
proof (cases "f = FCompany \<and> companySection_hidden s")
  case True
  then show ?thesis
    by (simp add: snd_validator emit_def buildSummary_nf)
next
  case False
  have h: "companySection_hidden (buildSummary U s) = companySection_hidden s"
    by (simp add: buildSummary_nf)
  from False have 1: "field_els (buildSummary U s) f = settle U f (field_els s f)"
    unfolding buildSummary_nf render_frame field_els_all_validated by auto
  from False have 2: "errorEls (buildSummary U s) f = validationMessage U f (settle U f (field_els s f))"
    unfolding buildSummary_nf render_frame errorEls_all_validated by auto
  from False show ?thesis
    by (auto simp add: snd_validator h validated_fixed [OF 1 2])
qed

section \<open>What validation leaves untouched\<close>

lemma untouched_validated [simp]: "untouched (validated U f s) = untouched s"
  by (auto simp add: untouched_def fun_eq_iff validated_def)

lemma untouched_emit [simp]: "untouched (emit e s) = untouched s"
  by (simp add: untouched_def emit_def)

lemma untouched_validator [simp]: "untouched (snd (validator U f s)) = untouched s"
  by (cases f)
     (simp_all add: validator_def validateName_nf validateEmail_nf validatePassword_nf
        validatePhone_nf validateCompany_nf)

lemma untouched_render [simp]: "untouched (render p s) = untouched s"
  by (simp add: untouched_def)

lemma untouched_all_validated [simp]: "untouched (all_validated U s) = untouched s"
  by (simp add: all_validated_def Let_def)

lemma untouched_buildSummary [simp]: "untouched (buildSummary U s) = untouched s"
  by (simp add: buildSummary_nf)

lemma untouched_and_also:
  "(\<And>s. untouched (snd (a s)) = untouched s) \<Longrightarrow> (\<And>s. untouched (snd (b s)) = untouched s)
   \<Longrightarrow> untouched (snd (and_also a b s)) = untouched s"
  by (simp add: and_also_def split: prod.splits) (metis snd_conv)

lemma untouched_validity_check [simp]: "untouched (snd (validity_check U s)) = untouched s"
  unfolding validity_check_def
  by (intro untouched_and_also)
     (simp_all add: validateName_nf validateEmail_nf validatePassword_nf
        validatePhone_nf validateCompany_nf)

lemma untouchedD:
  "untouched s' = untouched s \<Longrightarrow>
     localStorage s' = localStorage s \<and> hp s' = hp s \<and> companyToggle s' = companyToggle s
     \<and> companySection_hidden s' = companySection_hidden s \<and> clock s' = clock s
     \<and> timers s' = timers s \<and> next_timer s' = next_timer s
     \<and> input_timeout s' = input_timeout s \<and> change_timeout s' = change_timeout s
     \<and> (\<forall>f. val (field_els s' f) = val (field_els s f)
            \<and> required (field_els s' f) = required (field_els s f)
            \<and> user_edited (field_els s' f) = user_edited (field_els s f))"
  by (auto simp add: untouched_def fun_eq_iff)

lemma buildSummary_frame [simp]:
  "localStorage (buildSummary U s) = localStorage s"
  "hp (buildSummary U s) = hp s"
  "companyToggle (buildSummary U s) = companyToggle s"
  "companySection_hidden (buildSummary U s) = companySection_hidden s"
  "clock (buildSummary U s) = clock s"
  "timers (buildSummary U s) = timers s"
  "next_timer (buildSummary U s) = next_timer s"
  "input_timeout (buildSummary U s) = input_timeout s"
  "change_timeout (buildSummary U s) = change_timeout s"
  "val (field_els (buildSummary U s) f) = val (field_els s f)"
  "required (field_els (buildSummary U s) f) = required (field_els s f)"
  "user_edited (field_els (buildSummary U s) f) = user_edited (field_els s f)"
  using untouchedD [OF untouched_buildSummary, of U s] by simp_all

lemma validator_frame [simp]:
  "localStorage (snd (validator U f s)) = localStorage s"
  "hp (snd (validator U f s)) = hp s"
  "companyToggle (snd (validator U f s)) = companyToggle s"
  "companySection_hidden (snd (validator U f s)) = companySection_hidden s"
  "clock (snd (validator U f s)) = clock s"
  "timers (snd (validator U f s)) = timers s"
  "next_timer (snd (validator U f s)) = next_timer s"
  "input_timeout (snd (validator U f s)) = input_timeout s"
  "change_timeout (snd (validator U f s)) = change_timeout s"
  using untouchedD [OF untouched_validator, of U f s] by simp_all

lemma settled_validated [simp]: "settled U (validated U f s) = settled U s"
  by (auto simp add: settled_def fun_eq_iff validated_def)

lemma settled_emit [simp]: "settled U (emit e s) = settled U s"
  by (simp add: settled_def emit_def fun_eq_iff)

lemma settled_validator [simp]: "settled U (snd (validator U f s)) = settled U s"
  by (cases f)
     (simp_all add: validator_def validateName_nf validateEmail_nf validatePassword_nf
        validatePhone_nf validateCompany_nf)

lemma passes_settled: "passes U f s = checkValidity U f (settled U s f)"
  by (simp add: passes_def settled_def)

lemma passes_validator [simp]: "passes U f (snd (validator U g s)) = passes U f s"
  by (simp add: passes_settled)

lemma settled_and_also:
  "(\<And>s. settled U (snd (a s)) = settled U s) \<Longrightarrow> (\<And>s. settled U (snd (b s)) = settled U s)
   \<Longrightarrow> settled U (snd (and_also a b s)) = settled U s"
  by (simp add: snd_and_also)

lemma settled_validity_check [simp]: "settled U (snd (validity_check U s)) = settled U s"
  unfolding validity_check_def validator_unfold
  by (intro settled_and_also settled_validator)

lemma hidden_validity_check [simp]:
  "companySection_hidden (snd (validity_check U s)) = companySection_hidden s"
  using untouchedD [OF untouched_validity_check, of U s] by simp

lemma fst_validity_check:
  "fst (validity_check U s) =
     (passes U FName s \<and> passes U FEmail s \<and> passes U FPassword s \<and> passes U FPhone s
      \<and> (companySection_hidden s \<or> passes U FCompany s))"
  unfolding validity_check_def validator_unfold
  by (auto simp add: fst_and_also snd_and_also fst_validator)

section \<open>The validity check of the submit handler\<close>

lemma is_call_simps [simp]:
  "is_call (Call f)" "\<not> is_call PreventDefault" "\<not> is_call (Focus f)" "\<not> is_call (Alert m)"
  "\<not> is_call (Fetch u b)" "\<not> is_call (Console_error l e)" "\<not> is_call (Console_log vs)"
  by (simp_all add: is_call_def)

lemma outward_Nil [simp]: "outward [] = []"
  by (simp add: outward_def)


lemma outward_append [simp]: "outward (xs @ ys) = outward xs @ outward ys"
  by (simp add: outward_def)

lemma outward_single [simp]:
  "outward [Focus f] = [Focus f]" "outward [Alert m] = [Alert m]"
  "outward [Fetch u b] = [Fetch u b]" "outward [Console_error l e] = [Console_error l e]"
  "outward [Console_log vs] = [Console_log vs]"
  by (simp_all add: outward_def is_call_def)

lemma calls_only_refl [simp]: "calls_only s s"
  by (simp add: calls_only_def outward_def)

lemma calls_only_trans: "calls_only s s' \<Longrightarrow> calls_only s' s'' \<Longrightarrow> calls_only s s''"
  by (auto simp add: calls_only_def outward_def)

lemma calls_only_validator [simp]: "calls_only s (snd (validator U f s))"
  by (simp add: calls_only_def outward_def is_call_def)

lemma calls_only_and_also:
  "(\<And>s. calls_only s (snd (a s))) \<Longrightarrow> (\<And>s. calls_only s (snd (b s)))
   \<Longrightarrow> calls_only s (snd (and_also a b s))"
  by (cases "a s") (auto simp add: and_also_def intro: calls_only_trans dest: meta_spec [of _ s])

lemma calls_only_validity_check: "calls_only s (snd (validity_check U s))"
  unfolding validity_check_def validator_unfold
  by (intro calls_only_and_also calls_only_validator)

lemma calls_only_buildSummary: "calls_only s (buildSummary U s)"
  by (simp add: calls_only_def buildSummary_nf effects_all_validated outward_def is_call_def)

lemma submit_check_eq:
  "submit_check U s =
     (fst (validity_check U (emit PreventDefault s)),
      buildSummary U (snd (validity_check U (emit PreventDefault s))))"
  by (simp add: submit_check_def split_beta Let_def)

lemma untouched_submit_check [simp]: "untouched (snd (submit_check U s)) = untouched s"
  by (simp add: submit_check_def Let_def split: prod.splits)
     (metis snd_conv untouched_validity_check untouched_emit)

lemma effects_submit_check:
  "\<exists>cs. effects (snd (submit_check U s)) = effects s @ PreventDefault # cs \<and> outward cs = []"
proof -
  let ?s1 = "snd (validity_check U (emit PreventDefault s))"
  have "calls_only (emit PreventDefault s) ?s1"
    by (rule calls_only_validity_check)
  moreover have "calls_only ?s1 (buildSummary U ?s1)"
    by (rule calls_only_buildSummary)
  ultimately have "calls_only (emit PreventDefault s) (buildSummary U ?s1)"
    by (rule calls_only_trans)
  then show ?thesis
    unfolding submit_check_eq by (simp add: calls_only_def emit_def)
qed

lemma outward_submit_check: "outward (emitted s (snd (submit_check U s))) = [PreventDefault]"
  using effects_submit_check [of U s]
  by (auto simp add: emitted_def outward_def is_call_def)

lemma emitted_emit_submit_check:
  "emitted s (emit e (snd (submit_check U s))) = emitted s (snd (submit_check U s)) @ [e]"
  using effects_submit_check [of U s]
  by (auto simp add: emitted_def emit_def)

lemma calls_submit_check:
  "\<exists>cs. emitted s (snd (submit_check U s)) =
      PreventDefault # cs @ [Call FName, Call FEmail, Call FPassword, Call FPhone]
        @ (if companySection_hidden s then [] else [Call FCompany])"
proof -
  let ?s1 = "snd (validity_check U (emit PreventDefault s))"
  obtain cs where cs: "effects ?s1 = effects s @ PreventDefault # cs"
    using calls_only_validity_check [of "emit PreventDefault s" U]
    by (auto simp add: calls_only_def)
  have "effects (buildSummary U ?s1) =
      effects ?s1 @ [Call FName, Call FEmail, Call FPassword, Call FPhone]
        @ (if companySection_hidden s then [] else [Call FCompany])"
    by (simp add: buildSummary_nf effects_all_validated)
  then show ?thesis
    by (simp add: submit_check_eq emitted_def cs)
qed

lemma fst_submit_check:
  "fst (submit_check U s) =
     (passes U FName s \<and> passes U FEmail s \<and> passes U FPassword s \<and> passes U FPhone s
      \<and> (companySection_hidden s \<or> passes U FCompany s))"
  by (simp add: submit_check_eq fst_validity_check) (simp add: passes_def emit_def)

lemma field_els_submit_check:
  "f \<noteq> FCompany \<or> \<not> companySection_hidden s \<Longrightarrow>
   field_els (snd (submit_check U s)) f = settled U s f"
proof -
  assume a: "f \<noteq> FCompany \<or> \<not> companySection_hidden s"
  let ?s1 = "snd (validity_check U (emit PreventDefault s))"
  have h: "companySection_hidden ?s1 = companySection_hidden s"
    by simp
  have "field_els (buildSummary U ?s1) f = settle U f (field_els ?s1 f)"
    using a unfolding buildSummary_nf render_frame field_els_all_validated h by auto
  also have "\<dots> = settled U ?s1 f"
    by (simp only: settled_def)
  also have "\<dots> = settled U s f"
    by simp
  finally show ?thesis
    by (simp add: submit_check_eq)
qed

lemma aria_settled: "aria_invalid (settled U s f) = Some (String_bool (\<not> passes U f s))"
  by (simp add: settled_def passes_def settle_def Let_def)

lemma marker_submit_check:
  "f \<noteq> FCompany \<or> \<not> companySection_hidden s \<Longrightarrow>
   aria_invalid (field_els (snd (submit_check U s)) f) = Some (String_bool (\<not> passes U f s))"
  by (simp add: field_els_submit_check aria_settled)

section \<open>The sample pages\<close>

lemma sample_selectors [simp]:
  "form_order sample_env = [FName, FEmail, FPassword, FPhone, FCompany]"
  "JSON_stringify sample_env = flat_stringify"
  "JSON_parse sample_env = flat_parse"
  by (simp_all add: sample_env_def)

lemma sample_page_sel [simp]:
  "field_els sample_page f = blank_elem (f = FName \<or> f = FEmail \<or> f = FPassword)"
  "companySection_hidden sample_page"
  "effects sample_page = []"
  "errorEls sample_page f = []"
  "hp sample_page = []"
  "\<not> companyToggle sample_page"
  by (simp_all add: sample_page_def)

lemma sample_name_fails: "\<not> passes sample_env FName sample_page"
  by (simp add: passes_def settle_def chosen_def blank_elem_def
      checkValidity_def valueMissing_def setCustomValidity_def customError_def Let_def)

lemma sample_email_fails: "\<not> passes sample_env FEmail sample_page"
  by (simp add: passes_def settle_def chosen_def blank_elem_def
      checkValidity_def valueMissing_def setCustomValidity_def customError_def Let_def)

lemma filled_page_sel [simp]:
  "field_els filled_page FName = (blank_elem True)\<lparr>val := ''Ada Lovelace'', user_edited := True\<rparr>"
  "field_els filled_page FEmail = (blank_elem True)\<lparr>val := ''ada@example.org'', user_edited := True\<rparr>"
  "field_els filled_page FPassword = (blank_elem True)\<lparr>val := ''Engine1843'', user_edited := True\<rparr>"
  "field_els filled_page FPhone = (blank_elem False)\<lparr>val := ''040 123 4567'', user_edited := True\<rparr>"
  "field_els filled_page FCompany = blank_elem False"
  "companySection_hidden filled_page"
  "hp filled_page = []"
  "\<not> companyToggle filled_page"
  "localStorage filled_page = Map.empty"
  by (simp_all add: filled_page_def user_types_def sample_page_def)




lemma sample_query:
  "querySelector_invalid sample_env (snd (submit_check sample_env sample_page)) = Some FName"
  by (simp add: querySelector_invalid_def marker_submit_check sample_name_fails String_bool_def)

lemma sample_submit:
  "submit sample_env outcome sample_page = emit (Focus FName) (snd (submit_check sample_env sample_page))"
proof -
  have "\<not> fst (submit_check sample_env sample_page)"
    by (simp add: fst_submit_check sample_name_fails)
  then show ?thesis
    by (simp add: submit_def split_beta sample_query)
qed

lemma email_bad_page_sel [simp]:
  "field_els email_bad_page FName = (blank_elem True)\<lparr>val := ''Ada Lovelace'', user_edited := True\<rparr>"
  "field_els email_bad_page FEmail = blank_elem True"
  "companySection_hidden email_bad_page"
  by (simp_all add: email_bad_page_def user_types_def sample_page_def)

lemma email_bad_passes:
  "passes sample_env FName email_bad_page" "\<not> passes sample_env FEmail email_bad_page"
  by (simp_all add: passes_def settle_def chosen_def blank_elem_def sample_env_def
      checkValidity_def valueMissing_def setCustomValidity_def customError_def Let_def
      trim_def is_space_def)

lemma email_bad_markers:
  "aria_invalid (field_els (snd (submit_check sample_env email_bad_page)) FName) = Some ''false''"
  "aria_invalid (field_els (snd (submit_check sample_env email_bad_page)) FEmail) = Some ''true''"
  by (simp_all add: marker_submit_check email_bad_passes String_bool_def)

lemma email_bad_query:
  "querySelector_invalid sample_env (snd (submit_check sample_env email_bad_page)) = Some FEmail"
  by (simp add: querySelector_invalid_def email_bad_markers)

section \<open>Submit and the validators\<close>

text \<open>
  C1, amended: on every submit the validators of name, email, password and phone are
  invoked, and the validator of company whenever the company section is visible; once
  the summary is rebuilt, running any of the five validators again changes nothing on
  the page, and the marker and error text of every input (company only when visible)
  are those of its current value.
\<close>

theorem submit_check_validates_all:
  "Call FName \<in> set (emitted s (snd (submit_check U s)))
   \<and> Call FEmail \<in> set (emitted s (snd (submit_check U s)))
   \<and> Call FPassword \<in> set (emitted s (snd (submit_check U s)))
   \<and> Call FPhone \<in> set (emitted s (snd (submit_check U s)))
   \<and> (companySection_hidden s \<or> Call FCompany \<in> set (emitted s (snd (submit_check U s))))
   \<and> (\<forall>f. (snd (validator U f (snd (submit_check U s))))\<lparr>effects := []\<rparr>
            = (snd (submit_check U s))\<lparr>effects := []\<rparr>)
   \<and> (\<forall>f. (f = FCompany \<and> companySection_hidden s)
         \<or> (aria_invalid (field_els (snd (submit_check U s)) f)
               = Some (String_bool (\<not> fst (validator U f (snd (submit_check U s)))))
            \<and> errorEls (snd (submit_check U s)) f
               = validationMessage U f (field_els (snd (submit_check U s)) f)))"
proof -
  obtain cs where cs: "emitted s (snd (submit_check U s)) =
      PreventDefault # cs @ [Call FName, Call FEmail, Call FPassword, Call FPhone]
        @ (if companySection_hidden s then [] else [Call FCompany])"
    using calls_submit_check [of s U] by blast
  have a: "Call FName \<in> set (emitted s (snd (submit_check U s)))"
       "Call FEmail \<in> set (emitted s (snd (submit_check U s)))"
       "Call FPassword \<in> set (emitted s (snd (submit_check U s)))"
       "Call FPhone \<in> set (emitted s (snd (submit_check U s)))"
       "companySection_hidden s \<or> Call FCompany \<in> set (emitted s (snd (submit_check U s)))"
    unfolding cs by simp_all
  have b: "(snd (validator U f (snd (submit_check U s))))\<lparr>effects := []\<rparr>
            = (snd (submit_check U s))\<lparr>effects := []\<rparr>" for f
    unfolding submit_check_eq snd_conv by (rule validator_after_buildSummary)
  have c: "aria_invalid (field_els (snd (submit_check U s)) f)
               = Some (String_bool (\<not> fst (validator U f (snd (submit_check U s)))))
            \<and> errorEls (snd (submit_check U s)) f
               = validationMessage U f (field_els (snd (submit_check U s)) f)"
    if f: "f \<noteq> FCompany \<or> \<not> companySection_hidden s" for f
  proof -
    let ?s' = "snd (submit_check U s)"
    have h: "companySection_hidden ?s' = companySection_hidden s"
      using untouchedD [OF untouched_submit_check, of U s] by simp
    have fe: "field_els ?s' f = settled U s f"
      by (rule field_els_submit_check [OF f])
    have p: "passes U f ?s' = passes U f s"
      by (simp add: passes_def fe) (simp add: settled_def)
    have v: "fst (validator U f ?s') = passes U f s"
      using f by (auto simp add: fst_validator h p)
    have m: "aria_invalid (field_els ?s' f) = Some (String_bool (\<not> passes U f s))"
      by (rule marker_submit_check [OF f])
    let ?s1 = "snd (validity_check U (emit PreventDefault s))"
    have h1: "companySection_hidden ?s1 = companySection_hidden s"
      by simp
    have "errorEls (buildSummary U ?s1) f = validationMessage U f (settle U f (field_els ?s1 f))"
      using f unfolding buildSummary_nf render_frame errorEls_all_validated h1 by auto
    also have "settle U f (field_els ?s1 f) = settled U ?s1 f"
      by (simp only: settled_def)
    also have "\<dots> = settled U s f"
      by simp
    finally have "errorEls (buildSummary U ?s1) f = validationMessage U f (settled U s f)" .
    moreover have "buildSummary U ?s1 = ?s'"
      by (simp add: submit_check_eq)
    ultimately have "errorEls ?s' f = validationMessage U f (settled U s f)"
      by simp
    then have "errorEls ?s' f = validationMessage U f (field_els ?s' f)"
      by (simp only: fe)
    with m v show ?thesis by simp
  qed
  show ?thesis
    using a b c by blast
qed

text \<open>On the sample page with the company section shown, the company validator runs.\<close>

theorem submit_check_validates_all_witness:
  "\<not> companySection_hidden company_page
   \<and> Call FName \<in> set (emitted company_page (snd (submit_check sample_env company_page)))
   \<and> Call FCompany \<in> set (emitted company_page (snd (submit_check sample_env company_page)))
   \<and> (snd (validator sample_env FCompany (snd (submit_check sample_env company_page))))\<lparr>effects := []\<rparr>
        = (snd (submit_check sample_env company_page))\<lparr>effects := []\<rparr>
   \<and> aria_invalid (field_els (snd (submit_check sample_env company_page)) FCompany)
        = Some (String_bool (\<not> fst (validator sample_env FCompany (snd (submit_check sample_env company_page)))))"
proof -
  have 1: "\<not> companySection_hidden company_page"
    by (simp add: company_page_def user_types_def companyToggle_change_def Let_def)
  show ?thesis
    using submit_check_validates_all [of company_page sample_env] 1 by blast
qed

lemma validity_check_name_fails:
  "\<not> passes U FName s \<Longrightarrow> validity_check U s = (False, validated U FName s)"
  by (simp add: validity_check_def and_also_def validateName_nf passes_def)

lemma submit_check_name_fails:
  assumes "\<not> passes U FName s" and "companySection_hidden s"
  shows "effects (snd (submit_check U s)) =
           effects s @ [PreventDefault, Call FName, Call FName, Call FEmail, Call FPassword, Call FPhone]"
proof -
  have "\<not> passes U FName (emit PreventDefault s)"
    using assms(1) by (simp add: passes_def)
  then have "validity_check U (emit PreventDefault s) = (False, validated U FName (emit PreventDefault s))"
    by (rule validity_check_name_fails)
  then show ?thesis
    using assms(2) by (simp add: submit_check_eq buildSummary_nf effects_all_validated)
qed

text \<open>
  C1 as stated fails: on the sample page (empty required name and email) the
  conjunction stops after \<open>validateName\<close>; after it the email input is invalid but
  carries neither marker nor error text, and during the whole submit
  \<open>validateCompany\<close> is never invoked.
\<close>

theorem validity_check_short_circuits:
  "emitted sample_page (snd (validity_check sample_env sample_page)) = [Call FName]
   \<and> errorEls (snd (validity_check sample_env sample_page)) FEmail = []
   \<and> aria_invalid (field_els (snd (validity_check sample_env sample_page)) FEmail) = None
   \<and> fst (validateEmail sample_env (snd (validity_check sample_env sample_page))) = False
   \<and> emitted sample_page (submit sample_env (Rejected TypeError) sample_page)
       = [PreventDefault, Call FName, Call FName, Call FEmail, Call FPassword, Call FPhone,
          Focus FName]"
proof -
  have v: "validity_check sample_env sample_page = (False, validated sample_env FName sample_page)"
    by (rule validity_check_name_fails [OF sample_name_fails])
  have 1: "emitted sample_page (snd (validity_check sample_env sample_page)) = [Call FName]"
    by (simp add: v emitted_def)
  have 2: "errorEls (snd (validity_check sample_env sample_page)) FEmail = []"
    by (simp add: v)
  have 3: "aria_invalid (field_els (snd (validity_check sample_env sample_page)) FEmail) = None"
    by (simp add: v blank_elem_def)
  have "fst (validator sample_env FEmail (validated sample_env FName sample_page)) = False"
    using sample_email_fails by (simp add: fst_validator passes_def)
  then have 4: "fst (validateEmail sample_env (snd (validity_check sample_env sample_page))) = False"
    by (simp add: v validator_def)
  have 5: "emitted sample_page (submit sample_env (Rejected TypeError) sample_page)
       = [PreventDefault, Call FName, Call FName, Call FEmail, Call FPassword, Call FPhone,
          Focus FName]"
    by (simp add: sample_submit emitted_def submit_check_name_fails [OF sample_name_fails])
  show ?thesis
    by (intro conjI) (fact 1, fact 2, fact 3, fact 4, fact 5)
qed

section \<open>Focus on the first invalid input\<close>

lemma invalid_has_marker:
  assumes "\<not> fst (submit_check U s)"
  shows "\<exists>f. aria_invalid (field_els (snd (submit_check U s)) f) = Some ''true''"
proof -
  from assms obtain f where f: "\<not> passes U f s" "f \<noteq> FCompany \<or> \<not> companySection_hidden s"
    unfolding fst_submit_check by blast
  then have "aria_invalid (field_els (snd (submit_check U s)) f) = Some ''true''"
    by (simp add: marker_submit_check String_bool_def)
  then show ?thesis ..
qed

lemma find_first:
  "find P xs = Some x \<Longrightarrow> \<exists>pre post. xs = pre @ x # post \<and> P x \<and> list_all (\<lambda>y. \<not> P y) pre"
proof (induction xs)
  case Nil
  then show ?case by simp
next
  case (Cons a xs)
  show ?case
  proof (cases "P a")
    case True
    with Cons.prems have "a = x" by simp
    with True have "a # xs = [] @ x # xs \<and> P x \<and> list_all (\<lambda>y. \<not> P y) []"
      by simp
    then show ?thesis by blast
  next
    case False
    with Cons.prems have "find P xs = Some x" by simp
    from Cons.IH [OF this] obtain pre post
      where "xs = pre @ x # post" "P x" "list_all (\<lambda>y. \<not> P y) pre"
      by blast
    with False have "a # xs = (a # pre) @ x # post \<and> P x \<and> list_all (\<lambda>y. \<not> P y) (a # pre)"
      by simp
    then show ?thesis by blast
  qed
qed

text \<open>
  C8: when the five validated inputs are inside the form and the validity computed on
  submit is false, the handler calls \<open>focus()\<close> on an input that carries
  \<open>aria-invalid="true"\<close> and that no input carrying it precedes in document order, and
  returns; apart from calls of validators its effects are \<open>preventDefault\<close> and that
  focus: no request, no alert.
\<close>

theorem submit_invalid_focuses_first:
  assumes "set [FName, FEmail, FPassword, FPhone, FCompany] \<subseteq> set (form_order U)"
    and "\<not> fst (submit_check U s)"
  shows "\<exists>f pre post.
           form_order U = pre @ f # post
           \<and> aria_invalid (field_els (snd (submit_check U s)) f) = Some ''true''
           \<and> list_all (\<lambda>g. aria_invalid (field_els (snd (submit_check U s)) g) \<noteq> Some ''true'') pre
           \<and> querySelector_invalid U (snd (submit_check U s)) = Some f
           \<and> submit U outcome s = emit (Focus f) (snd (submit_check U s))
           \<and> outward (emitted s (submit U outcome s)) = [PreventDefault, Focus f]"
proof -
  obtain ok s' where sc: "submit_check U s = (ok, s')"
    by (cases "submit_check U s")
  from assms(2) have ok: "\<not> ok" by (simp add: sc)
  from invalid_has_marker [OF assms(2)]
  obtain g where g: "aria_invalid (field_els s' g) = Some ''true''"
    by (auto simp add: sc)
  have "g \<in> set (form_order U)"
    using assms(1) by (cases g) simp_all
  with g have "querySelector_invalid U s' \<noteq> None"
    by (auto simp add: querySelector_invalid_def find_None_iff)
  then obtain f where f: "querySelector_invalid U s' = Some f"
    by blast
  from find_first [OF f [unfolded querySelector_invalid_def]]
  obtain pre post where first: "form_order U = pre @ f # post"
      "aria_invalid (field_els s' f) = Some ''true''"
      "list_all (\<lambda>g. aria_invalid (field_els s' g) \<noteq> Some ''true'') pre"
    by blast
  have 1: "submit U outcome s = emit (Focus f) s'"
    by (simp add: submit_def sc f ok)
  have "outward (emitted s (emit (Focus f) (snd (submit_check U s)))) = [PreventDefault, Focus f]"
    by (simp add: emitted_emit_submit_check outward_submit_check)
  then have 2: "outward (emitted s (submit U outcome s)) = [PreventDefault, Focus f]"
    by (simp add: 1 sc)
  show ?thesis
    using f 1 2 first by (simp add: sc) blast
qed

text \<open>
  With a valid name and an empty email the name is marked \<open>false\<close>, the email \<open>true\<close>,
  and the email input gets the focus.
\<close>

theorem submit_invalid_focuses_first_witness:
  "set [FName, FEmail, FPassword, FPhone, FCompany] \<subseteq> set (form_order sample_env)
   \<and> \<not> fst (submit_check sample_env email_bad_page)
   \<and> form_order sample_env = [FName] @ FEmail # [FPassword, FPhone, FCompany]
   \<and> aria_invalid (field_els (snd (submit_check sample_env email_bad_page)) FName) = Some ''false''
   \<and> aria_invalid (field_els (snd (submit_check sample_env email_bad_page)) FEmail) = Some ''true''
   \<and> submit sample_env (Rejected TypeError) email_bad_page
        = emit (Focus FEmail) (snd (submit_check sample_env email_bad_page))
   \<and> outward (emitted email_bad_page (submit sample_env (Rejected TypeError) email_bad_page))
        = [PreventDefault, Focus FEmail]"
proof -
  have 1: "set [FName, FEmail, FPassword, FPhone, FCompany] \<subseteq> set (form_order sample_env)"
    by simp
  have 2: "\<not> fst (submit_check sample_env email_bad_page)"
    by (simp add: fst_submit_check email_bad_passes)
  have 3: "querySelector_invalid sample_env (snd (submit_check sample_env email_bad_page)) = Some FEmail"
    by (rule email_bad_query)
  from submit_invalid_focuses_first [OF 1 2, of "Rejected TypeError"] 3
  have "submit sample_env (Rejected TypeError) email_bad_page
        = emit (Focus FEmail) (snd (submit_check sample_env email_bad_page))"
    and "outward (emitted email_bad_page (submit sample_env (Rejected TypeError) email_bad_page))
        = [PreventDefault, Focus FEmail]"
    by auto
  with 1 2 email_bad_markers show ?thesis
    by simp
qed

lemma invalid_has_visible_marker:
  assumes "\<not> fst (submit_check U s)"
  shows "\<exists>f. aria_invalid (field_els (snd (submit_check U s)) f) = Some ''true''
            \<and> (f \<noteq> FCompany \<or> \<not> companySection_hidden s)"
proof -
  from assms obtain f where f: "\<not> passes U f s" "f \<noteq> FCompany \<or> \<not> companySection_hidden s"
    unfolding fst_submit_check by blast
  then have "aria_invalid (field_els (snd (submit_check U s)) f) = Some ''true''"
    by (simp add: marker_submit_check String_bool_def)
  with f(2) show ?thesis by blast
qed

lemma find_append_Some: "find P xs = Some x \<Longrightarrow> find P (xs @ ys) = Some x"
  by (induction xs) (simp_all split: if_splits)

text \<open>
  When the company input is the last of the validated inputs in document order, the
  input that gets the focus is shown: a marker left over on the hidden company input
  is never the first one.
\<close>

lemma focus_target_rendered:
  assumes "form_order U = fs @ [FCompany]" and "FCompany \<notin> set fs"
    and "set [FName, FEmail, FPassword, FPhone] \<subseteq> set fs"
    and "\<not> fst (submit_check U s)"
    and "querySelector_invalid U (snd (submit_check U s)) = Some f"
  shows "f \<noteq> FCompany \<or> \<not> companySection_hidden s"
proof (cases "companySection_hidden s")
  case False
  then show ?thesis by simp
next
  case True
  from invalid_has_visible_marker [OF assms(4)] True
  obtain g where g: "aria_invalid (field_els (snd (submit_check U s)) g) = Some ''true''" "g \<noteq> FCompany"
    by blast
  then have "g \<in> set fs"
    using assms(3) by (cases g) simp_all
  with g(1) have "find (\<lambda>f. aria_invalid (field_els (snd (submit_check U s)) f) = Some ''true'') fs \<noteq> None"
    by (auto simp add: find_None_iff)
  then obtain h where h: "find (\<lambda>f. aria_invalid (field_els (snd (submit_check U s)) f) = Some ''true'') fs = Some h"
    by blast
  then have "querySelector_invalid U (snd (submit_check U s)) = Some h"
    by (simp add: querySelector_invalid_def assms(1) find_append_Some)
  with assms(5) have "f = h" by simp
  moreover from h have "h \<in> set fs"
    by (auto simp add: find_Some_iff)
  ultimately show ?thesis
    using assms(2) by auto
qed

section \<open>Failed requests\<close>


lemma get_prop_reads:
  "data \<noteq> JNull \<Longrightarrow> data \<noteq> JUndefined \<Longrightarrow> \<exists>v. get_prop data k = Inr v"
  by (cases data) auto




lemma localStorage_send [simp]: "localStorage (snd (send U outcome p s)) = localStorage s"
  by (simp add: send_def try_catch_def emit_def Let_def split: fetch_outcome.splits sum.splits)

lemma localStorage_submit_proceed [simp]: "localStorage (submit_proceed U outcome s) = localStorage s"
  by (simp add: submit_proceed_def emit_def)

lemma localStorage_submit: "localStorage (submit U outcome s) = localStorage s"
proof -
  obtain ok s1 where sc: "submit_check U s = (ok, s1)"
    by (cases "submit_check U s")
  have "localStorage s1 = localStorage s"
    using untouchedD [OF untouched_submit_check, of U s] by (simp add: sc)
  then show ?thesis
    by (simp add: submit_def sc emit_def split: option.splits bool.splits)
qed






section \<open>The stored draft and the events\<close>

lemma debounce_sel [simp]:
  "fst (debounce fn wait t s) = Some (next_timer s)"
  "timers (snd (debounce fn wait t s)) =
     (case t of None \<Rightarrow> timers s | Some i \<Rightarrow> filter (\<lambda>x. fst x \<noteq> i) (timers s))
       @ [(next_timer s, clock s + wait, fn)]"
  "next_timer (snd (debounce fn wait t s)) = Suc (next_timer s)"
  "clock (snd (debounce fn wait t s)) = clock s"
  "localStorage (snd (debounce fn wait t s)) = localStorage s"
  "input_timeout (snd (debounce fn wait t s)) = input_timeout s"
  "change_timeout (snd (debounce fn wait t s)) = change_timeout s"
  "effects (snd (debounce fn wait t s)) = effects s"
  "field_els (snd (debounce fn wait t s)) = field_els s"
  "companySection_hidden (snd (debounce fn wait t s)) = companySection_hidden s"
  "companyToggle (snd (debounce fn wait t s)) = companyToggle s"
  by (simp_all add: debounce_def setTimeout_def clearTimeout_def Let_def split: option.splits)

lemma field_input_sel [simp]:
  "timers (field_input U f s) = timers s @ [(next_timer s, clock s + 150, RunValidate f)]"
  "next_timer (field_input U f s) = Suc (next_timer s)"
  "clock (field_input U f s) = clock s"
  "localStorage (field_input U f s) = localStorage s"
  "input_timeout (field_input U f s) = input_timeout s"
  "change_timeout (field_input U f s) = change_timeout s"
  by (simp_all add: field_input_def split_beta)

lemma form_input_sel [simp]:
  "timers (form_input s) =
     (case input_timeout s of None \<Rightarrow> timers s | Some i \<Rightarrow> filter (\<lambda>x. fst x \<noteq> i) (timers s))
       @ [(next_timer s, clock s + 300, RunSaveDraft)]"
  "next_timer (form_input s) = Suc (next_timer s)"
  "clock (form_input s) = clock s"
  "localStorage (form_input s) = localStorage s"
  "input_timeout (form_input s) = Some (next_timer s)"
  "change_timeout (form_input s) = change_timeout s"
  "effects (form_input s) = effects s"
  "field_els (form_input s) = field_els s"
  "companySection_hidden (form_input s) = companySection_hidden s"
  "companyToggle (form_input s) = companyToggle s"
  by (simp_all add: form_input_def split_beta)

lemma form_change_sel [simp]:
  "localStorage (form_change s) = localStorage s"
  "field_els (form_change s) = field_els s"
  "companySection_hidden (form_change s) = companySection_hidden s"
  "companyToggle (form_change s) = companyToggle s"
  by (simp_all add: form_change_def split_beta)

lemma companyToggle_change_sel [simp]:
  "localStorage (companyToggle_change s) = localStorage s"
  "companySection_hidden (companyToggle_change s) = (\<not> companyToggle s)"
  "required (field_els (companyToggle_change s) FCompany) = companyToggle s"
  "companyToggle (companyToggle_change s) = companyToggle s"
  by (simp_all add: companyToggle_change_def Let_def)

lemma user_types_sel [simp]:
  "timers (user_types f v s) = timers s"
  "next_timer (user_types f v s) = next_timer s"
  "clock (user_types f v s) = clock s"
  "input_timeout (user_types f v s) = input_timeout s"
  "effects (user_types f v s) = effects s"
  by (simp_all add: user_types_def)

lemma localStorage_phone_blur [simp]: "localStorage (phone_blur s) = localStorage s"
  by (simp add: phone_blur_def Let_def emit_def set_value_def)

lemma localStorage_run_task:
  "localStorage s STORAGE_KEY \<noteq> None \<Longrightarrow> localStorage (run_task U t s) STORAGE_KEY \<noteq> None"
  by (cases t) (simp_all add: run_task_def saveDraft_def emit_def Let_def)

lemma localStorage_fold_run_task:
  "localStorage s STORAGE_KEY \<noteq> None
   \<Longrightarrow> localStorage (fold (\<lambda>x. run_task U (snd (snd x))) ts s) STORAGE_KEY \<noteq> None"
proof (induction ts arbitrary: s)
  case Nil
  then show ?case by simp
next
  case (Cons t ts)
  from Cons.prems have "localStorage (run_task U (snd (snd t)) s) STORAGE_KEY \<noteq> None"
    by (rule localStorage_run_task)
  then show ?case
    using Cons.IH by simp
qed

lemma localStorage_elapse:
  "localStorage s STORAGE_KEY \<noteq> None \<Longrightarrow> localStorage (elapse U d s) STORAGE_KEY \<noteq> None"
  unfolding elapse_def Let_def by (rule localStorage_fold_run_task) simp

lemma localStorage_restore_value [simp]:
  "localStorage (snd (restore_value data k f s)) = localStorage s"
  by (simp add: restore_value_def set_value_def split: sum.splits)

lemma localStorage_restoreDraft: "localStorage (snd (restoreDraft U s)) = localStorage s"
  by (simp add: restoreDraft_def try_catch_def restore_body_def seq_def restore_value_def
      restore_toggle_def set_value_def emit_def Let_def
      split: option.splits sum.splits prod.splits)

lemma localStorage_clear: "localStorage (clearBtn_click U s) STORAGE_KEY = None"
  by (simp add: clearBtn_click_def Let_def emit_def)

text \<open>
  C10: the submit handler leaves \<open>localStorage\<close> as it found it, whatever the form holds
  and whatever the request comes to; the clear button removes the draft; loading the
  page does not write; and no event other than the click on the clear button turns a
  stored draft into a missing one.
\<close>

theorem draft_deleted_only_by_clear:
  "localStorage (submit U outcome s) = localStorage s
   \<and> localStorage (clearBtn_click U s) STORAGE_KEY = None
   \<and> localStorage (load U s) = localStorage s
   \<and> (localStorage s STORAGE_KEY \<noteq> None \<longrightarrow> ev \<noteq> ClickClear
        \<longrightarrow> localStorage (step U ev s) STORAGE_KEY \<noteq> None)"
proof -
  have "localStorage (step U ev s) STORAGE_KEY \<noteq> None"
    if "localStorage s STORAGE_KEY \<noteq> None" "ev \<noteq> ClickClear"
    using that
    by (cases ev) (simp_all add: step_def user_types_def localStorage_submit localStorage_elapse)
  then show ?thesis
    by (simp add: localStorage_submit localStorage_clear load_def localStorage_restoreDraft)
qed

text \<open>A stored draft survives a failed submission and is removed by the clear button.\<close>

theorem draft_deleted_only_by_clear_witness:
  "localStorage saved_page STORAGE_KEY \<noteq> None
   \<and> SubmitForm (Rejected TypeError) \<noteq> ClickClear
   \<and> localStorage (step sample_env (SubmitForm (Rejected TypeError)) saved_page) STORAGE_KEY \<noteq> None
   \<and> localStorage (step sample_env ClickClear saved_page) STORAGE_KEY = None"
proof -
  have 1: "localStorage saved_page STORAGE_KEY \<noteq> None"
    by (simp add: saved_page_def saveDraft_def Let_def)
  have 2: "SubmitForm (Rejected TypeError) \<noteq> ClickClear"
    by simp
  have 3: "localStorage (step sample_env ClickClear saved_page) STORAGE_KEY = None"
    by (simp add: step_def localStorage_clear)
  show ?thesis
    using draft_deleted_only_by_clear
      [of sample_env "Rejected TypeError" saved_page "SubmitForm (Rejected TypeError)"] 1 2 3
    by blast
qed

section \<open>The company section\<close>

text \<open>
  C2: the claim that a hidden company section always goes with a company input that is
  not required fails after the clear button: ticking the checkbox sets \<open>required\<close>,
  and the clear handler hides the section without removing the attribute, which the
  listener of the checkbox does when it hides the section.
\<close>

theorem clear_keeps_company_required:
  "companySection_hidden (run U [Toggle, ClickClear] (s\<lparr>companyToggle := False\<rparr>))
   \<and> required (field_els (run U [Toggle, ClickClear] (s\<lparr>companyToggle := False\<rparr>)) FCompany)"
  by (simp add: run_def step_def clearBtn_click_def Let_def emit_def form_reset_def)

lemma company_slot_validator:
  "companySection_hidden s \<Longrightarrow> errorEls (snd (validator U f s)) FCompany = errorEls s FCompany"
  by (cases f) (simp_all add: snd_validator)

lemma company_slot_buildSummary:
  "companySection_hidden s \<Longrightarrow> errorEls (buildSummary U s) FCompany = errorEls s FCompany"
  by (simp add: buildSummary_nf errorEls_all_validated)

lemma company_slot_and_also:
  assumes "\<And>s. companySection_hidden (snd (a s)) = companySection_hidden s"
    and "\<And>s. companySection_hidden s \<Longrightarrow> errorEls (snd (a s)) FCompany = errorEls s FCompany"
    and "\<And>s. companySection_hidden s \<Longrightarrow> errorEls (snd (b s)) FCompany = errorEls s FCompany"
    and "companySection_hidden s"
  shows "errorEls (snd (and_also a b s)) FCompany = errorEls s FCompany"
  using assms by (simp add: snd_and_also)

lemma hidden_and_also:
  assumes "\<And>s. companySection_hidden (snd (a s)) = companySection_hidden s"
    and "\<And>s. companySection_hidden (snd (b s)) = companySection_hidden s"
  shows "companySection_hidden (snd (and_also a b s)) = companySection_hidden s"
  using assms by (simp add: snd_and_also)

lemma company_slot_validity_check:
  "companySection_hidden s \<Longrightarrow> errorEls (snd (validity_check U s)) FCompany = errorEls s FCompany"
  unfolding validity_check_def validator_unfold
  by (intro company_slot_and_also hidden_and_also company_slot_validator validator_frame(4))

lemma company_slot_submit_check:
  "companySection_hidden s \<Longrightarrow> errorEls (snd (submit_check U s)) FCompany = errorEls s FCompany"
  by (simp add: submit_check_eq company_slot_buildSummary company_slot_validity_check)

lemma errorEls_send [simp]: "errorEls (snd (send U outcome p s)) = errorEls s"
  by (auto simp add: send_def try_catch_def Let_def split: fetch_outcome.splits sum.splits)

lemma hidden_send [simp]:
  "companySection_hidden (snd (send U outcome p s)) = companySection_hidden s"
  by (auto simp add: send_def try_catch_def Let_def split: fetch_outcome.splits sum.splits)

lemma company_slot_submit:
  "companySection_hidden (submit U outcome s) = companySection_hidden s"
  "companySection_hidden s \<Longrightarrow> errorEls (submit U outcome s) FCompany = errorEls s FCompany"
proof -
  obtain ok s' where sc: "submit_check U s = (ok, s')"
    by (cases "submit_check U s")
  have h: "companySection_hidden s' = companySection_hidden s"
    using untouchedD [OF untouched_submit_check, of U s] by (simp add: sc)
  show "companySection_hidden (submit U outcome s) = companySection_hidden s"
    by (simp add: submit_def sc h submit_proceed_def split: option.splits bool.splits)
  assume "companySection_hidden s"
  then have "errorEls s' FCompany = errorEls s FCompany"
    using company_slot_submit_check [where s = s and U = U] by (simp add: sc)
  then show "errorEls (submit U outcome s) FCompany = errorEls s FCompany"
    by (simp add: submit_def sc submit_proceed_def split: option.splits bool.splits)
qed

lemma company_slot_run_task:
  "companySection_hidden (run_task U t s) = companySection_hidden s"
  "companySection_hidden s \<Longrightarrow> errorEls (run_task U t s) FCompany = errorEls s FCompany"
  by (cases t; simp add: run_task_def company_slot_validator saveDraft_def Let_def)+

lemma company_slot_fold:
  "companySection_hidden (fold (\<lambda>x. run_task U (snd (snd x))) ts s) = companySection_hidden s
   \<and> (companySection_hidden s \<longrightarrow>
        errorEls (fold (\<lambda>x. run_task U (snd (snd x))) ts s) FCompany = errorEls s FCompany)"
  by (induction ts arbitrary: s) (simp_all add: company_slot_run_task)

lemma company_slot_elapse:
  "companySection_hidden (elapse U d s) = companySection_hidden s"
  "companySection_hidden s \<Longrightarrow> errorEls (elapse U d s) FCompany = errorEls s FCompany"
  by (simp_all add: elapse_def Let_def company_slot_fold)

lemma company_slot_field_input:
  "companySection_hidden (field_input U f s) = companySection_hidden s"
  "companySection_hidden s \<Longrightarrow> errorEls (field_input U f s) FCompany = errorEls s FCompany"
  by (simp_all add: field_input_def split_beta company_slot_buildSummary debounce_def
        setTimeout_def clearTimeout_def Let_def)

text \<open>
  The other half of the invariant holds: no event brings an error text into the slot
  of a hidden company section, and loading the page does not either.
\<close>

lemma company_error_step:
  assumes "companySection_hidden s \<longrightarrow> errorEls s FCompany = []"
  shows "companySection_hidden (step U ev s) \<longrightarrow> errorEls (step U ev s) FCompany = []"
proof (cases ev)
  case (Type f v)
  then show ?thesis
    using assms company_slot_field_input [where U = U and f = f and s = "user_types f v s"]
    by (simp add: step_def form_input_def split_beta debounce_def setTimeout_def clearTimeout_def
        Let_def user_types_def split: option.splits)
next
  case (TypeHp v)
  then show ?thesis
    using assms
    by (simp add: step_def form_input_def split_beta debounce_def setTimeout_def clearTimeout_def
        Let_def split: option.splits)
next
  case Commit
  then show ?thesis
    using assms
    by (simp add: step_def form_change_def split_beta debounce_def setTimeout_def clearTimeout_def
        Let_def split: option.splits)
next
  case Toggle
  then show ?thesis
    by (simp add: step_def form_change_def form_input_def split_beta debounce_def setTimeout_def
        clearTimeout_def Let_def companyToggle_change_def split: option.splits)
next
  case BlurPhone
  then show ?thesis
    using assms by (simp add: step_def phone_blur_def Let_def set_value_def)
next
  case ClickClear
  then show ?thesis
    by (simp add: step_def clearBtn_click_def Let_def company_slot_buildSummary)
next
  case (SubmitForm outcome)
  then show ?thesis
    using assms company_slot_submit [where U = U and outcome = outcome and s = s] by (simp add: step_def)
next
  case (Wait d)
  then show ?thesis
    using assms company_slot_elapse [where U = U and d = d and s = s] by (simp add: step_def)
qed

lemma company_error_load:
  assumes "errorEls s FCompany = []"
  shows "errorEls (load U s) FCompany = []"
  using assms
  by (simp add: load_def restoreDraft_def try_catch_def restore_body_def seq_def restore_value_def
      restore_toggle_def set_value_def emit_def Let_def
      split: option.splits sum.splits prod.splits)

lemma company_error_run:
  "companySection_hidden s \<longrightarrow> errorEls s FCompany = [] \<Longrightarrow>
   companySection_hidden (run U evs s) \<longrightarrow> errorEls (run U evs s) FCompany = []"
proof (induction evs arbitrary: s)
  case Nil
  then show ?case by (simp add: run_def)
next
  case (Cons ev evs)
  from company_error_step [OF Cons.prems, of U ev]
  have "companySection_hidden (run U evs (step U ev s)) \<longrightarrow> errorEls (run U evs (step U ev s)) FCompany = []"
    by (rule Cons.IH)
  then show ?case by (simp add: run_def)
qed

section \<open>Live validation and the debounced invoker\<close>

lemma elapse_none_due:
  "\<forall>x \<in> set (timers s). clock s + d < fst (snd x) \<Longrightarrow> elapse U d s = s\<lparr>clock := clock s + d\<rparr>"
proof -
  assume a: "\<forall>x \<in> set (timers s). clock s + d < fst (snd x)"
  then have 1: "filter (\<lambda>x. fst (snd x) \<le> clock s + d) (timers s) = []"
    by (auto simp add: filter_empty_conv)
  from a have 2: "filter (\<lambda>x. \<not> fst (snd x) \<le> clock s + d) (timers s) = timers s"
    by (auto simp add: filter_id_conv)
  show ?thesis
    by (simp add: elapse_def Let_def 1 2)
qed

lemma two_events_pending:
  "timers (run U [Type f v, Wait 10, Type f w] (s\<lparr>timers := [], input_timeout := None\<rparr>)) =
     [(next_timer s, clock s + 150, RunValidate f),
      (Suc (Suc (next_timer s)), clock s + 160, RunValidate f),
      (Suc (Suc (Suc (next_timer s))), clock s + 310, RunSaveDraft)]
   \<and> clock (run U [Type f v, Wait 10, Type f w] (s\<lparr>timers := [], input_timeout := None\<rparr>)) = clock s + 10"
proof -
  let ?s0 = "s\<lparr>timers := [], input_timeout := None\<rparr>"
  let ?s1 = "step U (Type f v) ?s0"
  have t1: "timers ?s1 = [(next_timer s, clock s + 150, RunValidate f),
                         (Suc (next_timer s), clock s + 300, RunSaveDraft)]"
       and c1: "clock ?s1 = clock s" and n1: "next_timer ?s1 = Suc (Suc (next_timer s))"
       and i1: "input_timeout ?s1 = Some (Suc (next_timer s))"
    by (simp_all add: step_def)
  have e: "elapse U 10 ?s1 = ?s1\<lparr>clock := clock ?s1 + 10\<rparr>"
    by (rule elapse_none_due) (simp add: t1 c1)
  show ?thesis
    by (simp add: run_def step_def [of U "Wait 10"] e)
       (simp add: step_def [of U "Type f w"] t1 c1 n1 i1)
qed

lemma elapse_two_validations:
  assumes "timers s = [(i, a, RunValidate f), (j, b, RunValidate f), (k, c, RunSaveDraft)]"
    and "a \<le> b" "b \<le> clock s + d" "clock s + d < c"
  shows "effects (elapse U d s) = effects s @ [Call f, Call f]"
    and "timers (elapse U d s) = [(k, c, RunSaveDraft)]"
  using assms by (simp_all add: elapse_def Let_def run_task_def)

text \<open>
  C3: two \<open>input\<close> events on the same field, ten milliseconds apart, leave two pending
  validations (and one pending save, whose debounced function is shared between
  events); 150 milliseconds later the validator has run twice from the timers.
\<close>

theorem live_validation_not_debounced:
  "map (\<lambda>x. snd (snd x)) (timers (run U [Type f v, Wait 10, Type f w] (s\<lparr>timers := [], input_timeout := None\<rparr>)))
     = [RunValidate f, RunValidate f, RunSaveDraft]
   \<and> emitted (run U [Type f v, Wait 10, Type f w] (s\<lparr>timers := [], input_timeout := None\<rparr>))
        (step U (Wait 150) (run U [Type f v, Wait 10, Type f w] (s\<lparr>timers := [], input_timeout := None\<rparr>)))
     = [Call f, Call f]"
proof -
  let ?s2 = "run U [Type f v, Wait 10, Type f w] (s\<lparr>timers := [], input_timeout := None\<rparr>)"
  have t: "timers ?s2 = [(next_timer s, clock s + 150, RunValidate f),
      (Suc (Suc (next_timer s)), clock s + 160, RunValidate f),
      (Suc (Suc (Suc (next_timer s))), clock s + 310, RunSaveDraft)]"
    and c: "clock ?s2 = clock s + 10"
    using two_events_pending [of U f v w s] by simp_all
  have "effects (elapse U 150 ?s2) = effects ?s2 @ [Call f, Call f]"
    by (rule elapse_two_validations(1) [OF t]) (simp_all add: c)
  then show ?thesis
    by (simp add: t emitted_def step_def)
qed

section \<open>Restoring the draft\<close>

text \<open>
  C5: when the stored draft does not parse, \<open>restoreDraft\<close> lets no exception out,
  leaves every control and every other part of the page as it was, and its only effect
  is one \<open>console.error\<close> (none at all for the empty string, which is not even
  parsed); in particular it shows no alert.
\<close>

theorem restoreDraft_malformed:
  assumes "localStorage s STORAGE_KEY = Some raw" and "JSON_parse U raw = Inl e"
  shows "fst (restoreDraft U s) = None
    \<and> snd (restoreDraft U s)
        = s\<lparr>effects := effects s @ (if raw = [] then [] else [Console_error ''Restore Error:'' e])\<rparr>"
  using assms by (simp add: restoreDraft_def try_catch_def restore_body_def emit_def)

text \<open>A draft cut off in the middle of the name.\<close>

theorem restoreDraft_malformed_witness:
  "localStorage broken_page STORAGE_KEY = Some truncated
   \<and> JSON_parse sample_env truncated = Inl SyntaxError
   \<and> fst (restoreDraft sample_env broken_page) = None
   \<and> snd (restoreDraft sample_env broken_page)
        = broken_page\<lparr>effects := effects broken_page
             @ [Console_error ''Restore Error:'' SyntaxError]\<rparr>"
proof -
  have 1: "localStorage broken_page STORAGE_KEY = Some truncated"
    by (simp add: broken_page_def)
  have 2: "JSON_parse sample_env truncated = Inl SyntaxError"
    by code_simp
  have 3: "truncated \<noteq> []"
    by code_simp
  show ?thesis
    using restoreDraft_malformed [OF 1 2] 1 2 3 by simp
qed

lemma restore_value_draft:
  "map_of kvs k = Some (JStr v) \<Longrightarrow>
   restore_value (JObj kvs) k f s = (None, set_value f v s)"
  by (simp add: restore_value_def or_else_def)

lemma restore_body_draft:
  assumes "JSON_parse U raw = Inr (draft_data s)"
  shows "restore_body U raw p =
     (None, emit (Console_log [JStr ''Restored Draft:'', draft_data s])
        (set_value FCompany (val (field_els s FCompany))
        ((set_value FPassword (val (field_els s FPassword))
         (set_value FPhone (val (field_els s FPhone))
         (set_value FEmail (val (field_els s FEmail))
         (set_value FName (val (field_els s FName)) p))))
           \<lparr>companyToggle := companyToggle s, companySection_hidden := \<not> companyToggle s\<rparr>)))"
  unfolding restore_body_def assms draft_data_def
  by (simp add: seq_def restore_value_draft restore_toggle_def Let_def)

text \<open>
  C4: for a JSON codec that reads back the draft object it wrote, restoring on a page
  whose storage holds the draft saved from \<open>s\<close> leaves in every one of the five
  inputs the value it has in \<open>s\<close> and in the checkbox its state in \<open>s\<close>, and the
  company section is hidden exactly when the restored checkbox is off.
\<close>

theorem draft_round_trip:
  assumes "JSON_stringify U (draft_data s) \<noteq> []"
    and "JSON_parse U (JSON_stringify U (draft_data s)) = Inr (draft_data s)"
    and "localStorage p STORAGE_KEY = localStorage (saveDraft U s) STORAGE_KEY"
  shows "fst (restoreDraft U p) = None
    \<and> (\<forall>f. val (field_els (load U p) f) = val (field_els s f))
    \<and> companyToggle (load U p) = companyToggle s
    \<and> companySection_hidden (load U p) = (\<not> companyToggle s)"
proof -
  have st: "localStorage p STORAGE_KEY = Some (JSON_stringify U (draft_data s))"
    using assms(3) by (simp add: saveDraft_def Let_def emit_def)
  have r: "restoreDraft U p = restore_body U (JSON_stringify U (draft_data s)) p"
    by (simp add: restoreDraft_def st assms(1) try_catch_def restore_body_draft [OF assms(2)])
  have v: "val (field_els (load U p) f) = val (field_els s f)" for f
    unfolding load_def r restore_body_draft [OF assms(2)]
    by (cases f) (simp_all add: set_value_def)
  have rest: "fst (restoreDraft U p) = None" "companyToggle (load U p) = companyToggle s"
      "companySection_hidden (load U p) = (\<not> companyToggle s)"
    unfolding load_def r restore_body_draft [OF assms(2)]
    by (simp_all add: set_value_def)
  show ?thesis
    using v rest by blast
qed

lemma read_string_escape:
  "read_string (escape v @ dquote # rest) = Some (v, rest)"
  by (induction v) (simp_all add: dquote_def backslash_def)

lemma read_scalar_quote:
  "read_scalar (quote v @ rest) = Some (JStr v, rest)"
  by (simp add: read_scalar_def quote_def read_string_escape)

lemma read_scalar_bool:
  "read_scalar (write_scalar (JBool b) @ rest) = Some (JBool b, rest)"
  by (cases b) (simp_all add: read_scalar_def dquote_def)

lemma read_key:
  "read_members (Suc n) (quote k @ CHR '':'' # rest) =
     (case read_scalar rest of
        None \<Rightarrow> None
      | Some (v, r2) \<Rightarrow>
          if take 1 r2 = '','' then
            map_option (\<lambda>r. ((k, v) # fst r, snd r)) (read_members n (drop 1 r2))
          else if take 1 r2 = ''}'' then Some ([(k, v)], drop 1 r2)
          else None)"
  by (simp add: quote_def read_string_escape)

lemma read_member_more:
  "read_members (Suc n) (quote k @ CHR '':'' # quote v @ CHR '','' # rest) =
     map_option (\<lambda>r. ((k, JStr v) # fst r, snd r)) (read_members n rest)"
  by (simp only: read_key read_scalar_quote) simp

lemma read_member_more_bool:
  "read_members (Suc n) (quote k @ CHR '':'' # write_scalar (JBool b) @ CHR '','' # rest) =
     map_option (\<lambda>r. ((k, JBool b) # fst r, snd r)) (read_members n rest)"
  by (simp only: read_key read_scalar_bool) simp

lemma read_member_last:
  "read_members (Suc n) (quote k @ CHR '':'' # quote v @ CHR ''}'' # rest) = Some ([(k, JStr v)], rest)"
  by (simp only: read_key read_scalar_quote) simp

lemma read_draft:
  "read_members (Suc (Suc (Suc (Suc (Suc (Suc n))))))
     (quote k1 @ CHR '':'' # quote v1 @ CHR '','' #
      quote k2 @ CHR '':'' # quote v2 @ CHR '','' #
      quote k3 @ CHR '':'' # quote v3 @ CHR '','' #
      quote k4 @ CHR '':'' # quote v4 @ CHR '','' #
      quote k5 @ CHR '':'' # write_scalar (JBool b) @ CHR '','' #
      quote k6 @ CHR '':'' # quote v6 @ CHR ''}'' # rest)
   = Some ([(k1, JStr v1), (k2, JStr v2), (k3, JStr v3), (k4, JStr v4), (k5, JBool b), (k6, JStr v6)], rest)"
  by (simp only: read_member_more read_member_more_bool read_member_last) simp

lemma stringify_draft:
  "flat_stringify (draft_data s) =
     CHR ''{'' #
      quote ''name'' @ CHR '':'' # quote (val (field_els s FName)) @ CHR '','' #
      quote ''email'' @ CHR '':'' # quote (val (field_els s FEmail)) @ CHR '','' #
      quote ''phone'' @ CHR '':'' # quote (val (field_els s FPhone)) @ CHR '','' #
      quote ''password'' @ CHR '':'' # quote (val (field_els s FPassword)) @ CHR '','' #
      quote ''companyToggle'' @ CHR '':'' # write_scalar (JBool (companyToggle s)) @ CHR '','' #
      quote ''company'' @ CHR '':'' # quote (val (field_els s FCompany)) @ CHR ''}'' # []"
  by (simp add: flat_stringify_def draft_data_def write_member_def del: write_scalar.simps(2))

lemma length_quote: "2 \<le> length (quote v)"
  by (simp add: quote_def)

text \<open>
  The sample codec reads back the draft of every page, so under it the round trip
  holds for all values of the five inputs and of the checkbox.
\<close>

lemma flat_codec_draft: "flat_parse (flat_stringify (draft_data s)) = Inr (draft_data s)"
proof -
  let ?body = "quote ''name'' @ CHR '':'' # quote (val (field_els s FName)) @ CHR '','' #
      quote ''email'' @ CHR '':'' # quote (val (field_els s FEmail)) @ CHR '','' #
      quote ''phone'' @ CHR '':'' # quote (val (field_els s FPhone)) @ CHR '','' #
      quote ''password'' @ CHR '':'' # quote (val (field_els s FPassword)) @ CHR '','' #
      quote ''companyToggle'' @ CHR '':'' # write_scalar (JBool (companyToggle s)) @ CHR '','' #
      quote ''company'' @ CHR '':'' # quote (val (field_els s FCompany)) @ CHR ''}'' # []"
  have "6 \<le> length (CHR ''{'' # ?body)"
    by simp
  then have "length (CHR ''{'' # ?body)
      = Suc (Suc (Suc (Suc (Suc (Suc (length (CHR ''{'' # ?body) - 6))))))"
    by arith
  then obtain n where n: "length (CHR ''{'' # ?body) = Suc (Suc (Suc (Suc (Suc (Suc n)))))"
    by blast
  have ne: "CHR ''{'' # ?body \<noteq> ''{}''"
    using length_quote [of "''name''"] by (auto simp del: length_0_conv)
  have d: "draft_data s = JObj [(''name'', JStr (val (field_els s FName))),
       (''email'', JStr (val (field_els s FEmail))),
       (''phone'', JStr (val (field_els s FPhone))),
       (''password'', JStr (val (field_els s FPassword))),
       (''companyToggle'', JBool (companyToggle s)),
       (''company'', JStr (val (field_els s FCompany)))]"
    by (simp add: draft_data_def)
  have "flat_parse (CHR ''{'' # ?body) = Inr (draft_data s)"
    unfolding flat_parse_def n d
    by (simp only: ne if_False take_Suc_Cons take_0 drop_Suc_Cons drop_0 One_nat_def
          read_draft refl if_True option.case prod.case list.case)
  then show ?thesis
    by (simp only: stringify_draft)
qed

lemma company_page_sel:
  "val (field_els company_page FName) = ''Ada Lovelace''"
  "val (field_els company_page FEmail) = ''ada@example.org''"
  "val (field_els company_page FPhone) = ''040 123 4567''"
  "val (field_els company_page FPassword) = ''Engine1843''"
  "val (field_els company_page FCompany) = ''Analytical Engines''"
  "companyToggle company_page"
  by (simp_all add: company_page_def user_types_def companyToggle_change_def Let_def blank_elem_def)

text \<open>
  The round trip on the sample page with a company, under the sample codec: the
  reloaded page starts empty and ends with the values that were saved.
\<close>

theorem draft_round_trip_witness:
  "JSON_stringify sample_env (draft_data company_page) \<noteq> []
   \<and> JSON_parse sample_env (JSON_stringify sample_env (draft_data company_page))
        = Inr (draft_data company_page)
   \<and> localStorage reloaded_page STORAGE_KEY
        = localStorage (saveDraft sample_env company_page) STORAGE_KEY
   \<and> val (field_els reloaded_page FName) = []
   \<and> fst (restoreDraft sample_env reloaded_page) = None
   \<and> val (field_els (load sample_env reloaded_page) FName) = ''Ada Lovelace''
   \<and> val (field_els (load sample_env reloaded_page) FEmail) = ''ada@example.org''
   \<and> val (field_els (load sample_env reloaded_page) FPhone) = ''040 123 4567''
   \<and> val (field_els (load sample_env reloaded_page) FPassword) = ''Engine1843''
   \<and> val (field_els (load sample_env reloaded_page) FCompany) = ''Analytical Engines''
   \<and> companyToggle (load sample_env reloaded_page)
   \<and> \<not> companySection_hidden (load sample_env reloaded_page)"
proof -
  have 1: "JSON_stringify sample_env (draft_data company_page) \<noteq> []"
    by code_simp
  have 2: "JSON_parse sample_env (JSON_stringify sample_env (draft_data company_page))
        = Inr (draft_data company_page)"
    by (simp add: flat_codec_draft)
  have 3: "localStorage reloaded_page STORAGE_KEY
        = localStorage (saveDraft sample_env company_page) STORAGE_KEY"
    by (simp add: reloaded_page_def)
  have 4: "val (field_els reloaded_page FName) = []"
    by (simp add: reloaded_page_def blank_elem_def)
  show ?thesis
    using draft_round_trip [OF 1 2 3] 1 2 3 4 by (simp add: company_page_sel)
qed

section \<open>The phone normaliser\<close>

lemma strip_chars_filter: "strip_chars v = filter (\<lambda>c. is_digit c \<or> c = CHR ''+'') v"
  by (induction v) simp_all

text \<open>
  C6, amended: on blur the phone value is stripped of every character except digits
  and \<open>+\<close> (each \<open>+\<close>, not only a leading one); a leading \<open>0\<close> is replaced by
  \<open>+358\<close>, a value starting with \<open>+\<close> is kept, anything else gets \<open>+358\<close> in
  front; the result is written back into the phone input.
\<close>

theorem phone_blur_normalises:
  "phone_blur s =
     emit (Console_log [JStr ''Normalised Phone:'', JStr (normalise_kept (val (field_els s FPhone)))])
       (set_value FPhone (normalise_kept (val (field_els s FPhone))) s)
   \<and> val (field_els (phone_blur s) FPhone) = normalise_kept (val (field_els s FPhone))"
  by (cases "filter (\<lambda>c. is_digit c \<or> c = CHR ''+'') (val (field_els s FPhone))")
     (simp_all add: phone_blur_def normalise_kept_def strip_chars_filter startsWith_def slice_def
        Let_def set_value_def emit_def)

text \<open>
  C6 as stated fails: for \<open>1+2\<close> the script keeps the inner \<open>+\<close>, where stripping all
  but a leading \<open>+\<close> would give \<open>+35812\<close>.
\<close>

theorem phone_blur_keeps_inner_plus:
  "val (field_els (phone_blur (user_types FPhone ''1+2'' sample_page)) FPhone) = ''+3581+2''
   \<and> normalise_leading ''1+2'' = ''+35812''
   \<and> val (field_els (phone_blur (user_types FPhone ''1+2'' sample_page)) FPhone)
        \<noteq> normalise_leading ''1+2''"
  by (simp add: phone_blur_def user_types_def sample_page_def blank_elem_def normalise_leading_def
        startsWith_def slice_def Let_def set_value_def emit_def is_digit_def)

end
